theory Spec2Isabelle
  imports Complex_Main "HOL-Library.Extended_Nat" "HOL-Library.Multiset"
begin

section \<open>Values of the host language\<close>

text \<open>
  A table cell is a string, a number or null (\<^verbatim>\<open>types.ts\<close>: \<^verbatim>\<open>string | number | null\<close>).
  A row is an object from header names to cells; a key that is absent reads as
  \<^verbatim>\<open>undefined\<close>, here \<open>None\<close>.  Numbers are idealised as reals; the result of a numeric
  conversion is a \<open>real option\<close> where \<open>None\<close> stands for NaN.  A string is the sequence of
  its characters under a fixed injective encoding.
\<close>

datatype cell = Str string | Num real | Null

type_synonym TableRow = "string \<rightharpoonup> cell"

record TableData =
  headers :: "string list"
  rows :: "TableRow list"

type_synonym jsnum = "real option"

text \<open>
  The conversions between strings and numbers of the runtime (\<^verbatim>\<open>String(n)\<close>,
  \<^verbatim>\<open>Number(s)\<close>, \<^verbatim>\<open>parseFloat\<close>, \<^verbatim>\<open>parseInt\<close>, \<^verbatim>\<open>n.toFixed(3)\<close>) and its string functions
  (\<^verbatim>\<open>s.trim()\<close>, \<^verbatim>\<open>s.toLowerCase()\<close>, \<^verbatim>\<open>s.toUpperCase()\<close>, which act on every Unicode space
  and letter) are parameters of the model: a theorem about a runtime \<open>J\<close> holds for any
  choice of them.
\<close>

record js =
  numToString :: "real \<Rightarrow> string"
  stringToNumber :: "string \<Rightarrow> jsnum"
  parseFloat :: "string \<Rightarrow> jsnum"
  parseInt :: "string \<Rightarrow> jsnum"
  toFixed3 :: "real \<Rightarrow> string"
  trim :: "string \<Rightarrow> string"
  toLowerCase :: "string \<Rightarrow> string"
  toUpperCase :: "string \<Rightarrow> string"

fun String :: "js \<Rightarrow> cell option \<Rightarrow> string" where
  "String J None = ''undefined''"
| "String J (Some Null) = ''null''"
| "String J (Some (Str s)) = s"
| "String J (Some (Num x)) = numToString J x"

fun Number :: "js \<Rightarrow> cell option \<Rightarrow> jsnum" where
  "Number J None = None"
| "Number J (Some Null) = Some 0"
| "Number J (Some (Str s)) = stringToNumber J s"
| "Number J (Some (Num x)) = Some x"

fun truthy :: "cell option \<Rightarrow> bool" where
  "truthy None = False"
| "truthy (Some Null) = False"
| "truthy (Some (Str s)) = (s \<noteq> [])"
| "truthy (Some (Num x)) = (x \<noteq> 0)"

text \<open>\<^verbatim>\<open>v || ''\<close>, \<^verbatim>\<open>v || 0\<close> and \<^verbatim>\<open>v ?? null\<close>.\<close>

definition orEmpty :: "cell option \<Rightarrow> cell option" where
  "orEmpty v = (if truthy v then v else Some (Str []))"

definition orZero :: "cell option \<Rightarrow> cell option" where
  "orZero v = (if truthy v then v else Some (Num 0))"

definition orNull :: "cell option \<Rightarrow> cell" where
  "orNull v = (case v of None \<Rightarrow> Null | Some c \<Rightarrow> c)"

text \<open>\<^verbatim>\<open>v == null\<close> holds of null and of undefined.\<close>

definition nullish :: "cell option \<Rightarrow> bool" where
  "nullish v = (v = None \<or> v = Some Null)"

definition isNaN :: "jsnum \<Rightarrow> bool" where
  "isNaN v = (v = None)"

text \<open>Comparisons of numbers: false as soon as one side is NaN.\<close>

fun gt :: "jsnum \<Rightarrow> jsnum \<Rightarrow> bool" where
  "gt (Some a) (Some b) = (a > b)"
| "gt _ _ = False"

fun lt :: "jsnum \<Rightarrow> jsnum \<Rightarrow> bool" where
  "lt (Some a) (Some b) = (a < b)"
| "lt _ _ = False"

definition Math_abs :: "jsnum \<Rightarrow> jsnum" where
  "Math_abs v = map_option abs v"

definition startsWith :: "string \<Rightarrow> string \<Rightarrow> bool" where
  "startsWith s p = (take (length p) s = p)"

text \<open>The elements of \<^verbatim>\<open>new Set(xs)\<close> in insertion order: first occurrences only.\<close>

definition uniqueInOrder :: "'a list \<Rightarrow> 'a list" where
  "uniqueInOrder xs = foldl (\<lambda>acc x. if x \<in> set acc then acc else acc @ [x]) [] xs"

text \<open>\<^verbatim>\<open>new Map(pairs)\<close>: a later pair overwrites an earlier one with the same key.\<close>

definition newMap :: "('k \<times> 'v) list \<Rightarrow> ('k \<rightharpoonup> 'v)" where
  "newMap kvs = foldl (\<lambda>m (k, v). m(k \<mapsto> v)) Map.empty kvs"

section \<open>Annotation arbiter\<close>

definition determineFinalAnnotation :: "js \<Rightarrow> TableRow \<Rightarrow> string" where
  "determineFinalAnnotation J row =
    (let compoundName = trim J (String J (orEmpty (row ''Compound_Name'')));
         siriusName = trim J (String J (orEmpty (row ''name'')))
     in if compoundName = [] \<and> siriusName = [] then []
        else if compoundName \<noteq> [] \<and> siriusName = [] then compoundName
        else if compoundName = [] \<and> siriusName \<noteq> [] then siriusName
        else if toLowerCase J compoundName = toLowerCase J siriusName then compoundName
        else
          let mqScore = parseFloat J (String J (row ''MQScore''));
              libQuality = String J (orEmpty (row ''LibraryQualityString''));
              sharedPeaks = parseInt J (String J (row ''SharedPeaks''));
              mzError = parseFloat J (String J (row ''MZErrorPPM''));
              confidence = parseFloat J (String J (row ''ConfidenceScoreExact''));
              isFbmnStrong = (\<not> isNaN mqScore \<and> \<not> isNaN sharedPeaks \<and> \<not> isNaN mzError \<and>
                              gt mqScore (Some (9 / 10)) \<and>
                              libQuality = ''Gold'' \<and>
                              gt sharedPeaks (Some 10) \<and>
                              lt (Math_abs mzError) (Some 5));
              isSiriusStrong = (\<not> isNaN confidence \<and> gt confidence (Some (8 / 10)))
          in if isFbmnStrong \<and> isSiriusStrong then siriusName
             else if isFbmnStrong then compoundName
             else if isSiriusStrong then siriusName
             else compoundName)"

section \<open>Contaminant filter\<close>

datatype error =
    NoFilterData | NoContaminantList
  | NoDereplicationData | NoBioColumns | NoQcColumns | NoIdColumn
  | BaseDataLost | MissingColumns "string list"

text \<open>
  \<^verbatim>\<open>handleApplyFilter\<close>: the table and the exclusion list are state that may be unset;
  the list is a set of names, given here by its elements.
\<close>

definition keepRow :: "js \<Rightarrow> string list \<Rightarrow> TableRow \<Rightarrow> bool" where
  "keepRow J contaminantList row =
    (let annotationValue = row ''Final_Annotation''
     in if annotationValue = Some Null \<or> annotationValue = None then True
        else let annotation = trim J (String J annotationValue)
             in if annotation = [] then True
                else \<not> (annotation \<in> set contaminantList))"

definition handleApplyFilter :: "js \<Rightarrow> TableData option \<Rightarrow> string list option \<Rightarrow> error + TableData" where
  "handleApplyFilter J filterToolData contaminantList =
    (case filterToolData of
       None \<Rightarrow> Inl NoFilterData
     | Some T \<Rightarrow>
        (case contaminantList of
           None \<Rightarrow> Inl NoContaminantList
         | Some S \<Rightarrow>
            if length (uniqueInOrder S) = 0 then Inl NoContaminantList
            else Inr (T\<lparr>rows := filter (keepRow J S) (rows T)\<rparr>)))"

section \<open>Table merger\<close>

text \<open>
  The matching steps of \<^verbatim>\<open>handleFileProcess\<close> (every step but the first, which parses the
  base file).  Of a step's configuration the fields read by the merge are kept.
\<close>

record ProcessingStep =
  requiredColumns :: "string list"
  matchColumn :: string
  matchColumnBase :: "string option"
  appendColumns :: "string list"

text \<open>\<^verbatim>\<open>appendColumns.forEach(col => newRowData[col] = match[col] ?? null)\<close>\<close>

definition newRowData :: "string list \<Rightarrow> TableRow \<Rightarrow> TableRow" where
  "newRowData cols match = foldl (\<lambda>m col. m(col \<mapsto> orNull (match col))) Map.empty cols"

definition matchMapID :: "js \<Rightarrow> TableRow list \<Rightarrow> (string \<rightharpoonup> TableRow)" where
  "matchMapID J dataRows =
    newMap (map (\<lambda>row. (trim J (String J (row ''ID'')), row))
             (filter (\<lambda>row. \<not> nullish (row ''ID'') \<and> trim J (String J (row ''ID'')) \<noteq> []) dataRows))"

definition mergeRowsID :: "js \<Rightarrow> string list \<Rightarrow> TableRow list \<Rightarrow> TableRow list \<Rightarrow> TableRow list" where
  "mergeRowsID J cols dataRows mergedRows =
    (let matchMap = matchMapID J dataRows
     in map (\<lambda>baseRow.
              let baseId = baseRow ''ID''
              in if nullish baseId \<or> trim J (String J baseId) = [] then baseRow
                 else (case matchMap (trim J (String J baseId)) of
                         Some match \<Rightarrow> baseRow ++ newRowData cols match
                       | None \<Rightarrow> baseRow))
            mergedRows)"

definition foundUnmatchedID :: "js \<Rightarrow> TableRow list \<Rightarrow> TableRow list \<Rightarrow> string list" where
  "foundUnmatchedID J dataRows netRows =
    (let baseIdSet = set (filter (\<lambda>id. id \<noteq> []) (map (\<lambda>row. trim J (String J (row ''ID''))) netRows));
         uploadedIds = filter (\<lambda>id. \<not> nullish id \<and> trim J (String J id) \<noteq> [])
                         (map (\<lambda>row. row ''ID'') dataRows);
         uniqueUploadedIds = uniqueInOrder (map (\<lambda>id. trim J (String J id)) uploadedIds)
     in filter (\<lambda>id. id \<notin> baseIdSet) uniqueUploadedIds)"

text \<open>\<^verbatim>\<open>Number(v).toFixed(3)\<close>; of NaN it is the string \<^verbatim>\<open>NaN\<close>.\<close>

definition toFixed :: "js \<Rightarrow> jsnum \<Rightarrow> string" where
  "toFixed J v = (case v of None \<Rightarrow> ''NaN'' | Some x \<Rightarrow> toFixed3 J x)"

definition matchMapMass :: "js \<Rightarrow> TableRow list \<Rightarrow> (string \<rightharpoonup> TableRow)" where
  "matchMapMass J dataRows =
    newMap (map (\<lambda>row. (toFixed J (Number J (row ''ionMass'')), row))
             (filter (\<lambda>row. \<not> nullish (row ''ionMass'') \<and> \<not> isNaN (Number J (row ''ionMass''))) dataRows))"

definition mergeRowsMass ::
  "js \<Rightarrow> string \<Rightarrow> string list \<Rightarrow> TableRow list \<Rightarrow> TableRow list \<Rightarrow> TableRow list \<Rightarrow> TableRow list" where
  "mergeRowsMass J baseMzKey cols dataRows netRows mergedRows =
    (let matchMap = matchMapMass J dataRows
     in map (\<lambda>(index, baseRow).
              let mzToMatch = (if index < length netRows then (netRows ! index) baseMzKey else None)
              in if mzToMatch = Some Null \<or> mzToMatch = None \<or> trim J (String J mzToMatch) = []
                    \<or> isNaN (Number J mzToMatch) then baseRow
                 else (case matchMap (toFixed J (Number J mzToMatch)) of
                         Some match \<Rightarrow> baseRow ++ newRowData cols match
                       | None \<Rightarrow> baseRow))
            (zip [0..<length mergedRows] mergedRows))"

definition foundUnmatchedMass :: "js \<Rightarrow> string \<Rightarrow> TableRow list \<Rightarrow> TableRow list \<Rightarrow> cell option list" where
  "foundUnmatchedMass J baseMzKey dataRows netRows =
    (let baseMzSet = set (filter (\<lambda>mz. mz \<noteq> None)
                       (map (\<lambda>row. let mz = row baseMzKey
                                   in if \<not> nullish mz \<and> \<not> isNaN (Number J mz)
                                      then Some (toFixed J (Number J mz)) else None) netRows))
     in filter (\<lambda>mass. \<not> nullish mass \<and> \<not> isNaN (Number J mass)
                        \<and> Some (toFixed J (Number J mass)) \<notin> baseMzSet)
          (map (\<lambda>row. row ''ionMass'') dataRows))"

definition handleFileProcess ::
  "js \<Rightarrow> ProcessingStep \<Rightarrow> TableData \<Rightarrow> TableData option \<Rightarrow> TableData option
     \<Rightarrow> error + (TableData \<times> cell option list)" where
  "handleFileProcess J stepConfig data mergedData netTable =
    (case mergedData of None \<Rightarrow> Inl BaseDataLost | Some mergedData \<Rightarrow>
     (case netTable of None \<Rightarrow> Inl BaseDataLost | Some netTable \<Rightarrow>
       (let missingCols = filter (\<lambda>col. col \<notin> set (headers data)) (requiredColumns stepConfig)
        in if length missingCols > 0 then Inl (MissingColumns missingCols)
           else
             let newHeaders = headers mergedData;
                 appendCols = filter (\<lambda>col. col \<notin> set newHeaders) (appendColumns stepConfig);
                 newHeaders = newHeaders @ appendCols
             in if matchColumn stepConfig = ''ID'' then
                  Inr (\<lparr>headers = newHeaders,
                        rows = mergeRowsID J (appendColumns stepConfig) (rows data) (rows mergedData)\<rparr>,
                       map (\<lambda>id. Some (Str id)) (foundUnmatchedID J (rows data) (rows netTable)))
                else (case matchColumnBase stepConfig of
                        Some baseMzKey \<Rightarrow>
                          if matchColumn stepConfig = ''ionMass'' \<and> baseMzKey \<noteq> [] then
                            Inr (\<lparr>headers = newHeaders,
                                  rows = mergeRowsMass J baseMzKey (appendColumns stepConfig)
                                           (rows data) (rows netTable) (rows mergedData)\<rparr>,
                                 foundUnmatchedMass J baseMzKey (rows data) (rows netTable))
                          else Inr (\<lparr>headers = newHeaders, rows = []\<rparr>, [])
                      | None \<Rightarrow> Inr (\<lparr>headers = newHeaders, rows = []\<rparr>, [])))))"

section \<open>Dereplication engine\<close>

text \<open>
  The status literals of the source are Chinese strings; they are written here by the names
  the specification gives them.  Only their equality matters.
\<close>

definition Retained :: string where "Retained = ''Retained''"
definition Removed :: string where "Removed = ''Removed''"
definition ExcludedHighMissing :: string where "ExcludedHighMissing = ''ExcludedHighMissing''"
definition ExcludedUnstableQC :: string where "ExcludedUnstableQC = ''ExcludedUnstableQC''"

definition bioColsOf :: "js \<Rightarrow> string list \<Rightarrow> string list" where
  "bioColsOf J hs =
    filter (\<lambda>h. startsWith (toUpperCase J h) ''CON_'' \<or> startsWith (toUpperCase J h) ''HBO_'') hs"

definition qcColsOf :: "js \<Rightarrow> string list \<Rightarrow> string list" where
  "qcColsOf J hs = filter (\<lambda>h. startsWith (toUpperCase J h) ''QC-'') hs"

text \<open>\<^verbatim>\<open>vs.filter(v => !isNaN(v))\<close>: the numbers that are left.\<close>

definition numbers :: "jsnum list \<Rightarrow> real list" where
  "numbers vs = List.map_filter (\<lambda>v. v) vs"

text \<open>\<^verbatim>\<open>xs.reduce((a, b) => a + b, 0)\<close>\<close>

definition reduceSum :: "real list \<Rightarrow> real" where
  "reduceSum xs = foldl (\<lambda>a b. a + b) 0 xs"

text \<open>
  The groups are a \<^verbatim>\<open>Map\<close> from annotation to rows, iterated in the order in which the keys
  were first inserted: an association list.
\<close>

fun pushToGroup :: "string \<Rightarrow> TableRow \<Rightarrow> (string \<times> TableRow list) list \<Rightarrow> (string \<times> TableRow list) list" where
  "pushToGroup key row [] = [(key, [row])]"
| "pushToGroup key row ((k, rs) # gs) =
     (if k = key then (k, rs @ [row]) # gs else (k, rs) # pushToGroup key row gs)"

definition groupStep ::
  "js \<Rightarrow> (string \<times> TableRow list) list \<times> TableRow list \<Rightarrow> TableRow
     \<Rightarrow> (string \<times> TableRow list) list \<times> TableRow list" where
  "groupStep J st row =
    (let annotation = row ''Final_Annotation''
     in if truthy annotation \<and> trim J (String J annotation) \<noteq> []
        then (pushToGroup (trim J (String J annotation)) row (fst st), snd st)
        else (fst st, snd st @ [row]))"

definition grouping :: "js \<Rightarrow> TableRow list \<Rightarrow> (string \<times> TableRow list) list \<times> TableRow list" where
  "grouping J rs = foldl (groupStep J) ([], []) rs"

text \<open>
  Stage 1.1 and 1.2: the missing-rate and QC-stability filters on one row of a group.  The
  arithmetic is that of the reals.  The program rounds every operation to an IEEE double,
  so these definitions give the program's result where the rounding changes no comparison:
  on Scenario C, whose means, deviations and RSDs are computed without rounding error, and
  for the sign of the QC mean.
\<close>

definition qcValuesOf :: "js \<Rightarrow> string list \<Rightarrow> TableRow \<Rightarrow> real list" where
  "qcValuesOf J qcCols row = filter (\<lambda>v. v > 0) (numbers (map (\<lambda>col. Number J (row col)) qcCols))"

definition missingRateOf :: "js \<Rightarrow> string list \<Rightarrow> TableRow \<Rightarrow> real" where
  "missingRateOf J bioCols row =
    (let bioValues = numbers (map (\<lambda>col. Number J (row col)) bioCols);
         missingCount = real (length bioCols) - real (length (filter (\<lambda>v. v > 0) bioValues))
     in (missingCount / real (length bioCols)) * 100)"

definition candidateOf :: "js \<Rightarrow> string list \<Rightarrow> string list \<Rightarrow> TableRow \<Rightarrow> TableRow" where
  "candidateOf J bioCols qcCols row =
    (if missingRateOf J bioCols row > 50 then row(''_derep_status'' \<mapsto> Str ExcludedHighMissing)
     else
       let qcValues = qcValuesOf J qcCols row
       in if length qcValues < 2 then row(''_qc_rsd'' \<mapsto> Num 0)
          else
            let mean = reduceSum qcValues / real (length qcValues)
            in if mean = 0 then row(''_derep_status'' \<mapsto> Str ExcludedUnstableQC)
               else
                 let stdDev = sqrt (reduceSum (map (\<lambda>x. (x - mean) ^ 2) qcValues)
                                      / (real (length qcValues) - 1));
                     rsd = (stdDev / mean) * 100
                 in if rsd > 30 then row(''_derep_status'' \<mapsto> Str ExcludedUnstableQC)
                    else row(''_qc_rsd'' \<mapsto> Num rsd))"

definition candidatesOf :: "js \<Rightarrow> string list \<Rightarrow> string list \<Rightarrow> TableRow list \<Rightarrow> TableRow list" where
  "candidatesOf J bioCols qcCols groupRows =
    filter (\<lambda>row. row ''_derep_status'' = None) (map (candidateOf J bioCols qcCols) groupRows)"

text \<open>Stage 2: the winner among the candidates.\<close>

definition avgIntensityOf :: "js \<Rightarrow> string list \<Rightarrow> TableRow \<Rightarrow> real" where
  "avgIntensityOf J bioCols row =
    (let bioValues = filter (\<lambda>v. v > 0) (numbers (map (\<lambda>col. Number J (row col)) bioCols))
     in if length bioValues > 0 then reduceSum bioValues / real (length bioValues) else 0)"

text \<open>\<^verbatim>\<open>Math.min\<close> of one or more numbers: NaN as soon as one of them is.\<close>

fun Math_min :: "jsnum \<Rightarrow> jsnum list \<Rightarrow> jsnum" where
  "Math_min v [] = v"
| "Math_min v (w # ws) =
     Math_min (case v of None \<Rightarrow> None
               | Some a \<Rightarrow> (case w of None \<Rightarrow> None | Some b \<Rightarrow> Some (min a b))) ws"

definition plus2 :: "jsnum \<Rightarrow> jsnum" where
  "plus2 v = map_option (\<lambda>x. x + 2) v"

definition rsdOf :: "js \<Rightarrow> TableRow \<Rightarrow> jsnum" where
  "rsdOf J r = Number J (r ''_qc_rsd'')"

definition avgOf :: "js \<Rightarrow> TableRow \<Rightarrow> jsnum" where
  "avgOf J r = Number J (orZero (r ''_avg_intensity''))"

fun selectWinner :: "js \<Rightarrow> string list \<Rightarrow> TableRow list \<Rightarrow> TableRow option" where
  "selectWinner J bioCols [] = None"
| "selectWinner J bioCols [c] = Some c"
| "selectWinner J bioCols (c # c' # cs) =
    (let candidates = map (\<lambda>row. row(''_avg_intensity'' \<mapsto> Num (avgIntensityOf J bioCols row))) (c # c' # cs);
         min_rsd = Math_min (rsdOf J (hd candidates)) (map (rsdOf J) (tl candidates));
         finalCandidates = filter (\<lambda>r. lt (rsdOf J r) (plus2 min_rsd)) candidates
     in if length finalCandidates > 0
        then Some (foldl (\<lambda>mx row. if gt (avgOf J row) (avgOf J mx) then row else mx)
                     (hd finalCandidates) finalCandidates)
        else None)"

text \<open>One group: its rows with their status, in group order.\<close>

definition markResults :: "TableRow option \<Rightarrow> TableRow list \<Rightarrow> TableRow list" where
  "markResults winner groupRows =
    map (\<lambda>row. case winner of
                 Some w \<Rightarrow> if row ''ID'' = w ''ID'' then row(''_derep_status'' \<mapsto> Str Retained)
                           else row(''_derep_status'' \<mapsto> Str Removed)
               | None \<Rightarrow> row(''_derep_status'' \<mapsto> Str Removed))
        groupRows"

definition processGroup :: "js \<Rightarrow> string list \<Rightarrow> string list \<Rightarrow> TableRow list \<Rightarrow> TableRow list" where
  "processGroup J bioCols qcCols groupRows =
    (if length groupRows \<le> 1
     then [(case groupRows of [] \<Rightarrow> Map.empty | r # _ \<Rightarrow> r)(''_derep_status'' \<mapsto> Str Retained)]
     else markResults (selectWinner J bioCols (candidatesOf J bioCols qcCols groupRows)) groupRows)"

definition deleteMetrics :: "TableRow \<Rightarrow> TableRow" where
  "deleteMetrics row = row(''_qc_rsd'' := None, ''_avg_intensity'' := None)"

text \<open>
  The original order: \<^verbatim>\<open>rowOrderMap\<close> sends an identifier to the index of its row and the
  rows are sorted, stably, by that index, \<^verbatim>\<open>Infinity\<close> for an identifier that is not found.
\<close>

definition rowOrderMap :: "TableRow list \<Rightarrow> (cell option \<rightharpoonup> nat)" where
  "rowOrderMap rs = newMap (map (\<lambda>(index, row). (row ''ID'', index)) (zip [0..<length rs] rs))"

definition orderKey :: "TableRow list \<Rightarrow> TableRow \<Rightarrow> enat" where
  "orderKey rs a = (case rowOrderMap rs (a ''ID'') of Some i \<Rightarrow> enat i | None \<Rightarrow> \<infinity>)"

definition finalRowsOf :: "js \<Rightarrow> string list \<Rightarrow> string list \<Rightarrow> TableRow list \<Rightarrow> TableRow list" where
  "finalRowsOf J bioCols qcCols rs =
    (let (groups, unknowns) = grouping J rs;
         processedRows = concat (map (\<lambda>(key, groupRows). processGroup J bioCols qcCols groupRows) groups);
         finalRows = processedRows @ map (\<lambda>row. row(''_derep_status'' \<mapsto> Str Retained)) unknowns;
         finalRows = map deleteMetrics finalRows
     in sort_key (orderKey rs) finalRows)"

definition handleDereplication :: "js \<Rightarrow> TableData option \<Rightarrow> error + TableData" where
  "handleDereplication J dereplicationData =
    (case dereplicationData of
       None \<Rightarrow> Inl NoDereplicationData
     | Some T \<Rightarrow>
        let bioCols = bioColsOf J (headers T);
            qcCols = qcColsOf J (headers T)
        in if length bioCols = 0 then Inl NoBioColumns
           else if length qcCols = 0 then Inl NoQcColumns
           else if ''ID'' \<notin> set (headers T) then Inl NoIdColumn
           else Inr (T\<lparr>rows := finalRowsOf J bioCols qcCols (rows T)\<rparr>))"

text \<open>
  \<^verbatim>\<open>handleDownloadDereplicationResult\<close> hands the retained rows, without their status, to
  \<^verbatim>\<open>exportFile\<close>, which writes the header line and each row projected on the headers.
\<close>

definition dataToDownload :: "TableData \<Rightarrow> TableData" where
  "dataToDownload T =
    \<lparr>headers = headers T,
     rows = map (\<lambda>r. r(''_derep_status'' := None))
              (filter (\<lambda>r. r ''_derep_status'' = Some (Str Retained)) (rows T))\<rparr>"

definition exportFile :: "TableData \<Rightarrow> string list \<times> cell option list list" where
  "exportFile T = (headers T, map (\<lambda>row. map (\<lambda>header. row header) (headers T)) (rows T))"

definition handleDownloadDereplicationResult :: "TableData option \<Rightarrow> (string list \<times> cell option list list) option" where
  "handleDownloadDereplicationResult dereplicationData =
    (case dereplicationData of None \<Rightarrow> None | Some T \<Rightarrow> Some (exportFile (dataToDownload T)))"

section \<open>Notions of the specification\<close>

text \<open>
  The text of a field that holds a name: empty when the field is missing, null, the empty
  string or the number zero.
\<close>

definition fieldText :: "js \<Rightarrow> cell option \<Rightarrow> string" where
  "fieldText J v =
    (case v of
       None \<Rightarrow> []
     | Some Null \<Rightarrow> []
     | Some (Str s) \<Rightarrow> s
     | Some (Num x) \<Rightarrow> if x = 0 then [] else numToString J x)"

section \<open>Notions for the reassembly\<close>

text \<open>
  A row of a processed group is the group's row with a final status; a row of the result is
  such a row with the two metric fields deleted.
\<close>

definition statusAdded :: "TableRow \<Rightarrow> TableRow \<Rightarrow> bool" where
  "statusAdded r r' = (r' = r(''_derep_status'' \<mapsto> Str Retained) \<or> r' = r(''_derep_status'' \<mapsto> Str Removed))"

definition outputOf :: "TableRow \<Rightarrow> TableRow \<Rightarrow> bool" where
  "outputOf r r' = (r' = deleteMetrics (r(''_derep_status'' \<mapsto> Str Retained))
                   \<or> r' = deleteMetrics (r(''_derep_status'' \<mapsto> Str Removed)))"

text \<open>The rows before the final sort, and the permutation of the input they stem from.\<close>

definition reassembled :: "js \<Rightarrow> TableRow list \<Rightarrow> TableRow list" where
  "reassembled J rs = concat (map snd (fst (grouping J rs))) @ snd (grouping J rs)"

text \<open>The rows of a result (none on an error) and a column of a list of rows.\<close>

definition rowsOfResult :: "error + TableData \<Rightarrow> TableRow list" where
  "rowsOfResult res = (case res of Inr T \<Rightarrow> rows T | Inl e \<Rightarrow> [])"

definition columnOf :: "string \<Rightarrow> TableRow list \<Rightarrow> cell option list" where
  "columnOf h rs = map (\<lambda>r. r h) rs"

section \<open>Concrete inputs\<close>

text \<open>
  The tables below hold strings of ASCII characters only.  On such a string
  \<^verbatim>\<open>trim\<close> strips exactly the leading and trailing TAB, LF, VT, FF, CR and SP, and the case
  conversions map exactly the 26 letters.
\<close>

definition isSpace :: "char \<Rightarrow> bool" where
  "isSpace c = (c \<in> set [CHR '' '', CHR 0x09, CHR 0x0A, CHR 0x0B, CHR 0x0C, CHR 0x0D])"

definition trimAscii :: "string \<Rightarrow> string" where
  "trimAscii s = rev (dropWhile isSpace (rev (dropWhile isSpace s)))"

definition lowerChar :: "char \<Rightarrow> char" where
  "lowerChar c =
    (case map_of (zip ''ABCDEFGHIJKLMNOPQRSTUVWXYZ'' ''abcdefghijklmnopqrstuvwxyz'') c of
       Some d \<Rightarrow> d | None \<Rightarrow> c)"

definition upperChar :: "char \<Rightarrow> char" where
  "upperChar c =
    (case map_of (zip ''abcdefghijklmnopqrstuvwxyz'' ''ABCDEFGHIJKLMNOPQRSTUVWXYZ'') c of
       Some d \<Rightarrow> d | None \<Rightarrow> c)"

definition toLowerCaseAscii :: "string \<Rightarrow> string" where
  "toLowerCaseAscii s = map lowerChar s"

definition toUpperCaseAscii :: "string \<Rightarrow> string" where
  "toUpperCaseAscii s = map upperChar s"

text \<open>A runtime with these string functions.\<close>

definition asciiStrings :: "js \<Rightarrow> js" where
  "asciiStrings J =
    J\<lparr>trim := trimAscii, toLowerCase := toLowerCaseAscii, toUpperCase := toUpperCaseAscii\<rparr>"

text \<open>A runtime whose conversions are tabulated on the values that the examples use.\<close>

definition J0 :: js where
  "J0 = \<lparr>numToString = (\<lambda>x. if x = 5 then ''5'' else if x = 1 then ''1'' else ''0''),
         stringToNumber = map_of [(''12'', 12)],
         parseFloat = map_of [(''0.95'', 95 / 100), (''-1.5'', - 3 / 2), (''0.5'', 1 / 2), (''12'', 12)],
         parseInt = map_of [(''12'', 12)],
         toFixed3 = (\<lambda>x. if x = 5 then ''5.000'' else if x = 1 then ''1.000'' else ''0.000''),
         trim = trimAscii, toLowerCase = toLowerCaseAscii, toUpperCase = toUpperCaseAscii\<rparr>"

text \<open>
  A row of one annotation group with one biological column and three QC columns.  QC values
  \<open>m - d, m, m + d\<close> have mean \<open>m\<close> and sample standard deviation \<open>d\<close>.
\<close>

definition mkRow :: "real \<Rightarrow> real \<Rightarrow> real \<Rightarrow> real \<Rightarrow> real \<Rightarrow> TableRow" where
  "mkRow i b q1 q2 q3 =
    [''ID'' \<mapsto> Num i, ''Final_Annotation'' \<mapsto> Str ''X'', ''CON_1'' \<mapsto> Num b,
     ''QC-1'' \<mapsto> Num q1, ''QC-2'' \<mapsto> Num q2, ''QC-3'' \<mapsto> Num q3]"

definition scenarioHeaders :: "string list" where
  "scenarioHeaders = [''ID'', ''Final_Annotation'', ''CON_1'', ''QC-1'', ''QC-2'', ''QC-3'']"

text \<open>Scenario C: QC RSDs 5, 6 and 40, average intensities 50, 80 and 10.\<close>

definition scenarioC :: TableData where
  "scenarioC = \<lparr>headers = scenarioHeaders,
     rows = [mkRow 1 50 95 100 105, mkRow 2 80 94 100 106, mkRow 3 10 60 100 140]\<rparr>"

definition filterInput :: TableData where
  "filterInput = \<lparr>headers = [''Final_Annotation''],
     rows = [[''Final_Annotation'' \<mapsto> Str ''caffeine ''], [''Final_Annotation'' \<mapsto> Null],
             [''Final_Annotation'' \<mapsto> Str ''glucose'']]\<rparr>"

definition filterOutput :: TableData where
  "filterOutput = \<lparr>headers = [''Final_Annotation''],
     rows = [[''Final_Annotation'' \<mapsto> Null], [''Final_Annotation'' \<mapsto> Str ''glucose'']]\<rparr>"

text \<open>A row on which the two sources disagree, the first one strongly supported.\<close>

definition arbiterRow :: TableRow where
  "arbiterRow = [''Compound_Name'' \<mapsto> Str '' Abc '', ''name'' \<mapsto> Str ''xyz'',
      ''MQScore'' \<mapsto> Str ''0.95'', ''LibraryQualityString'' \<mapsto> Str ''Gold'',
      ''SharedPeaks'' \<mapsto> Str ''12'', ''MZErrorPPM'' \<mapsto> Str ''-1.5'',
      ''ConfidenceScoreExact'' \<mapsto> Str ''0.5'']"

text \<open>
  An exact-key step whose incoming table has the key 2 twice, and a tolerance step whose
  incoming table has the mass 5 twice, on a base table of three rows with mass 1.
\<close>

definition idStep :: ProcessingStep where
  "idStep = \<lparr>requiredColumns = [''ID''], matchColumn = ''ID'', matchColumnBase = None,
             appendColumns = [''Compound_Name'', ''Adduct'']\<rparr>"

definition idBase :: TableData where
  "idBase = \<lparr>headers = [''ID'', ''MZ''],
     rows = [[''ID'' \<mapsto> Str ''1'', ''MZ'' \<mapsto> Num 1], [''ID'' \<mapsto> Str ''2'', ''MZ'' \<mapsto> Num 1],
             [''ID'' \<mapsto> Null, ''MZ'' \<mapsto> Num 1]]\<rparr>"

definition idIncoming :: TableData where
  "idIncoming = \<lparr>headers = [''ID'', ''Compound_Name''],
     rows = [[''ID'' \<mapsto> Str '' 2'', ''Compound_Name'' \<mapsto> Str ''X''],
             [''ID'' \<mapsto> Str ''2 '', ''Compound_Name'' \<mapsto> Str ''Y'']]\<rparr>"

definition massStep :: ProcessingStep where
  "massStep = \<lparr>requiredColumns = [''ionMass''], matchColumn = ''ionMass'', matchColumnBase = Some ''MZ'',
               appendColumns = [''molecularFormula'']\<rparr>"

definition massIncoming :: TableData where
  "massIncoming = \<lparr>headers = [''ionMass'', ''molecularFormula''],
     rows = [[''ionMass'' \<mapsto> Num 5, ''molecularFormula'' \<mapsto> Str ''CH4''],
             [''ionMass'' \<mapsto> Num 5, ''molecularFormula'' \<mapsto> Str ''CH4'']]\<rparr>"

text \<open>A table in which the identifier 1 occurs twice.\<close>

definition dupTable :: TableData where
  "dupTable = \<lparr>headers = scenarioHeaders,
     rows = [(mkRow 1 50 95 100 105)(''Final_Annotation'' \<mapsto> Str ''A''),
             (mkRow 2 80 94 100 106)(''Final_Annotation'' \<mapsto> Str ''B''),
             (mkRow 1 10 60 100 140)(''Final_Annotation'' \<mapsto> Null)]\<rparr>"

section \<open>Properties of the contaminant filter\<close>

lemma keepRow_iff:
  "keepRow J S r \<longleftrightarrow>
     \<not> (r ''Final_Annotation'' \<noteq> None \<and> r ''Final_Annotation'' \<noteq> Some Null
         \<and> trim J (String J (r ''Final_Annotation'')) \<noteq> []
         \<and> trim J (String J (r ''Final_Annotation'')) \<in> set S)"
  by (auto simp: keepRow_def Let_def)

text \<open>
  Claim C9.  When the filter runs (a table is loaded and the exclusion list is not empty),
  the headers are kept, a row of the input is in the output exactly when it is not the case
  that its annotation is present (neither missing nor null), not empty after the runtime's
  trimming and, trimmed, a member of the list (so a row with an empty or missing
  annotation always stays), the output is the input with the other rows left out, and
  filtering the output again with the same list returns the output.
\<close>

theorem contaminant_filter_exact_idempotent:
  assumes "handleApplyFilter J (Some T) (Some S) = Inr T'"
  shows "headers T' = headers T
     \<and> (\<forall>r \<in> set (rows T). r \<in> set (rows T') \<longleftrightarrow>
           \<not> (r ''Final_Annotation'' \<noteq> None \<and> r ''Final_Annotation'' \<noteq> Some Null
               \<and> trim J (String J (r ''Final_Annotation'')) \<noteq> []
               \<and> trim J (String J (r ''Final_Annotation'')) \<in> set S))
     \<and> rows T' = filter (\<lambda>r. r \<in> set (rows T')) (rows T)
     \<and> handleApplyFilter J (Some T') (Some S) = Inr T'"
proof -
  from assms have ne: "length (uniqueInOrder S) \<noteq> 0"
    and T': "T' = T\<lparr>rows := filter (keepRow J S) (rows T)\<rparr>"
    by (auto simp: handleApplyFilter_def split: if_splits)
  have r: "rows T' = filter (keepRow J S) (rows T)" and h: "headers T' = headers T"
    by (simp_all add: T')
  have mem: "\<forall>r \<in> set (rows T). r \<in> set (rows T') \<longleftrightarrow> keepRow J S r"
    by (simp add: r)
  have ord: "rows T' = filter (\<lambda>r. r \<in> set (rows T')) (rows T)"
    unfolding r by (rule filter_cong) auto
  have idem: "handleApplyFilter J (Some T') (Some S) = Inr T'"
    using ne by (simp add: handleApplyFilter_def T')
  show ?thesis using h mem ord idem by (simp add: keepRow_iff)
qed

lemma filterInput_result:
  "handleApplyFilter J0 (Some filterInput) (Some [''caffeine'']) = Inr filterOutput"
  by (simp add: handleApplyFilter_def keepRow_def uniqueInOrder_def J0_def trimAscii_def isSpace_def
      Let_def filterInput_def filterOutput_def)

theorem contaminant_filter_exact_idempotent_witness:
  "handleApplyFilter J0 (Some filterInput) (Some [''caffeine'']) = Inr filterOutput
   \<and> handleApplyFilter J0 (Some filterOutput) (Some [''caffeine'']) = Inr filterOutput"
  using contaminant_filter_exact_idempotent [OF filterInput_result] filterInput_result by simp

section \<open>Scenario C through the dereplication engine\<close>

declare selectWinner.simps [simp del]

lemma mkRow_simps:
  "mkRow i b q1 q2 q3 ''ID'' = Some (Num i)"
  "mkRow i b q1 q2 q3 ''Final_Annotation'' = Some (Str ''X'')"
  "mkRow i b q1 q2 q3 ''CON_1'' = Some (Num b)"
  "mkRow i b q1 q2 q3 ''QC-1'' = Some (Num q1)"
  "mkRow i b q1 q2 q3 ''QC-2'' = Some (Num q2)"
  "mkRow i b q1 q2 q3 ''QC-3'' = Some (Num q3)"
  "mkRow i b q1 q2 q3 ''_derep_status'' = None"
  "mkRow i b q1 q2 q3 ''_qc_rsd'' = None"
  "mkRow i b q1 q2 q3 ''_avg_intensity'' = None"
  by (simp_all add: mkRow_def)

lemma asciiStrings_simps [simp]:
  "trim (asciiStrings J) = trimAscii"
  "toLowerCase (asciiStrings J) = toLowerCaseAscii"
  "toUpperCase (asciiStrings J) = toUpperCaseAscii"
  "numToString (asciiStrings J) = numToString J"
  "stringToNumber (asciiStrings J) = stringToNumber J"
  "parseFloat (asciiStrings J) = parseFloat J"
  "parseInt (asciiStrings J) = parseInt J"
  "toFixed3 (asciiStrings J) = toFixed3 J"
  by (simp_all add: asciiStrings_def)

lemma asciiStrings_J0: "asciiStrings J0 = J0"
  by (simp add: asciiStrings_def J0_def)

lemma scenario_bioCols: "bioColsOf (asciiStrings J) scenarioHeaders = [''CON_1'']"
  by (simp add: scenarioHeaders_def bioColsOf_def startsWith_def toUpperCaseAscii_def upperChar_def)

lemma scenario_qcCols: "qcColsOf (asciiStrings J) scenarioHeaders = [''QC-1'', ''QC-2'', ''QC-3'']"
  by (simp add: scenarioHeaders_def qcColsOf_def startsWith_def toUpperCaseAscii_def upperChar_def)

lemmas candidate_eval =
  candidateOf_def missingRateOf_def qcValuesOf_def numbers_def List.map_filter_def reduceSum_def
  Let_def power2_eq_square mkRow_simps

lemma scenarioC_candidate1:
  "candidateOf J [''CON_1''] [''QC-1'', ''QC-2'', ''QC-3''] (mkRow 1 50 95 100 105)
     = (mkRow 1 50 95 100 105)(''_qc_rsd'' \<mapsto> Num 5)"
  by (simp add: candidate_eval)

lemma scenarioC_candidate2:
  "candidateOf J [''CON_1''] [''QC-1'', ''QC-2'', ''QC-3''] (mkRow 2 80 94 100 106)
     = (mkRow 2 80 94 100 106)(''_qc_rsd'' \<mapsto> Num 6)"
  by (simp add: candidate_eval)

lemma scenarioC_candidate3:
  "candidateOf J [''CON_1''] [''QC-1'', ''QC-2'', ''QC-3''] (mkRow 3 10 60 100 140)
     = (mkRow 3 10 60 100 140)(''_derep_status'' \<mapsto> Str ExcludedUnstableQC)"
  by (simp add: candidate_eval)

lemma scenarioC_grouping:
  "grouping (asciiStrings J) (rows scenarioC) = ([(''X'', rows scenarioC)], [])"
  by (simp add: grouping_def groupStep_def scenarioC_def mkRow_simps trimAscii_def isSpace_def Let_def)

lemma scenarioC_candidates:
  "candidatesOf J [''CON_1''] [''QC-1'', ''QC-2'', ''QC-3''] (rows scenarioC) =
     [(mkRow 1 50 95 100 105)(''_qc_rsd'' \<mapsto> Num 5), (mkRow 2 80 94 100 106)(''_qc_rsd'' \<mapsto> Num 6)]"
  by (simp add: candidatesOf_def scenarioC_def scenarioC_candidate1 scenarioC_candidate2
      scenarioC_candidate3 mkRow_simps)

lemma scenarioC_winner:
  "map_option (\<lambda>w. w ''ID'') (selectWinner J [''CON_1'']
     [(mkRow 1 50 95 100 105)(''_qc_rsd'' \<mapsto> Num 5), (mkRow 2 80 94 100 106)(''_qc_rsd'' \<mapsto> Num 6)])
   = Some (Some (Num 2))"
  by (simp add: selectWinner.simps rsdOf_def avgOf_def orZero_def plus2_def avgIntensityOf_def
      numbers_def List.map_filter_def reduceSum_def Let_def mkRow_simps)

lemma scenarioC_rowOrderMap:
  "rowOrderMap (rows scenarioC) =
     (\<lambda>k. if k = Some (Num 3) then Some 2 else if k = Some (Num 2) then Some 1
          else if k = Some (Num 1) then Some 0 else None)"
  by (rule ext) (simp add: rowOrderMap_def newMap_def scenarioC_def mkRow_simps upt_rec)

lemma scenarioC_orderKey:
  "orderKey (rows scenarioC) (deleteMetrics ((mkRow 1 b q1 q2 q3)(''_derep_status'' \<mapsto> s))) = enat 0"
  "orderKey (rows scenarioC) (deleteMetrics ((mkRow 2 b q1 q2 q3)(''_derep_status'' \<mapsto> s))) = enat 1"
  "orderKey (rows scenarioC) (deleteMetrics ((mkRow 3 b q1 q2 q3)(''_derep_status'' \<mapsto> s))) = enat 2"
  by (simp_all add: orderKey_def scenarioC_rowOrderMap deleteMetrics_def mkRow_simps)

lemma scenarioC_processGroup:
  "processGroup J [''CON_1''] [''QC-1'', ''QC-2'', ''QC-3''] (rows scenarioC) =
     [(mkRow 1 50 95 100 105)(''_derep_status'' \<mapsto> Str Removed),
      (mkRow 2 80 94 100 106)(''_derep_status'' \<mapsto> Str Retained),
      (mkRow 3 10 60 100 140)(''_derep_status'' \<mapsto> Str Removed)]"
proof -
  obtain w where w: "selectWinner J [''CON_1'']
        [(mkRow 1 50 95 100 105)(''_qc_rsd'' \<mapsto> Num 5), (mkRow 2 80 94 100 106)(''_qc_rsd'' \<mapsto> Num 6)]
        = Some w"
    and wid: "w ''ID'' = Some (Num 2)"
    using scenarioC_winner [of J] by auto
  have "length (rows scenarioC) = 3" by (simp add: scenarioC_def)
  then have "processGroup J [''CON_1''] [''QC-1'', ''QC-2'', ''QC-3''] (rows scenarioC)
       = markResults (Some w) (rows scenarioC)"
    by (simp add: processGroup_def scenarioC_candidates w)
  also have "\<dots> = [(mkRow 1 50 95 100 105)(''_derep_status'' \<mapsto> Str Removed),
      (mkRow 2 80 94 100 106)(''_derep_status'' \<mapsto> Str Retained),
      (mkRow 3 10 60 100 140)(''_derep_status'' \<mapsto> Str Removed)]"
    by (simp add: markResults_def scenarioC_def wid mkRow_simps)
  finally show ?thesis .
qed

lemma scenarioC_finalRows:
  "finalRowsOf (asciiStrings J) [''CON_1''] [''QC-1'', ''QC-2'', ''QC-3''] (rows scenarioC) =
     [deleteMetrics ((mkRow 1 50 95 100 105)(''_derep_status'' \<mapsto> Str Removed)),
      deleteMetrics ((mkRow 2 80 94 100 106)(''_derep_status'' \<mapsto> Str Retained)),
      deleteMetrics ((mkRow 3 10 60 100 140)(''_derep_status'' \<mapsto> Str Removed))]"
  unfolding finalRowsOf_def scenarioC_grouping
  by (simp add: scenarioC_processGroup sort_key_id_if_sorted scenarioC_orderKey)

lemma scenarioC_handle:
  "handleDereplication (asciiStrings J) (Some scenarioC)
     = Inr (scenarioC\<lparr>rows := finalRowsOf (asciiStrings J) [''CON_1''] [''QC-1'', ''QC-2'', ''QC-3'']
                                (rows scenarioC)\<rparr>)"
proof -
  have "headers scenarioC = scenarioHeaders" by (simp add: scenarioC_def)
  then show ?thesis
    by (simp add: handleDereplication_def scenario_bioCols scenario_qcCols Let_def)
       (simp add: scenarioHeaders_def)
qed

lemmas scenario_bioCols_J0 = scenario_bioCols [of J0, unfolded asciiStrings_J0]
lemmas scenario_qcCols_J0 = scenario_qcCols [of J0, unfolded asciiStrings_J0]
lemmas scenarioC_finalRows_J0 = scenarioC_finalRows [of J0, unfolded asciiStrings_J0]
lemmas scenarioC_handle_J0 = scenarioC_handle [of J0, unfolded asciiStrings_J0]

text \<open>
  Claim C1, amended.  On the group of Scenario C the QC-stability filter excludes the third
  row (RSD 40, marked ExcludedUnstableQC there), the candidates are the first two rows
  with RSDs 5 and 6, the second row wins, and the statuses of the rows of the resulting
  table are Removed, Retained and Removed: every row of a group that is not the winner,
  also one that a filter excluded, ends as Removed.  This holds for every choice of the
  conversions between strings and numbers; the strings of the scenario are ASCII.
\<close>

theorem scenario_C_final_statuses:
  "candidateOf J [''CON_1''] [''QC-1'', ''QC-2'', ''QC-3''] (mkRow 3 10 60 100 140) ''_derep_status''
     = Some (Str ExcludedUnstableQC)
   \<and> candidatesOf J [''CON_1''] [''QC-1'', ''QC-2'', ''QC-3''] (rows scenarioC)
     = [(mkRow 1 50 95 100 105)(''_qc_rsd'' \<mapsto> Num 5), (mkRow 2 80 94 100 106)(''_qc_rsd'' \<mapsto> Num 6)]
   \<and> map_option (\<lambda>winner. winner ''ID'')
        (selectWinner J [''CON_1''] (candidatesOf J [''CON_1''] [''QC-1'', ''QC-2'', ''QC-3''] (rows scenarioC)))
     = Some (Some (Num 2))
   \<and> columnOf ''ID'' (rowsOfResult (handleDereplication (asciiStrings J) (Some scenarioC)))
     = [Some (Num 1), Some (Num 2), Some (Num 3)]
   \<and> columnOf ''_derep_status'' (rowsOfResult (handleDereplication (asciiStrings J) (Some scenarioC)))
     = [Some (Str Removed), Some (Str Retained), Some (Str Removed)]"
proof -
  obtain w where w: "selectWinner J [''CON_1'']
        [(mkRow 1 50 95 100 105)(''_qc_rsd'' \<mapsto> Num 5), (mkRow 2 80 94 100 106)(''_qc_rsd'' \<mapsto> Num 6)]
        = Some w"
    and wid: "w ''ID'' = Some (Num 2)"
    using scenarioC_winner [of J] by auto
  show ?thesis
    by (simp add: scenarioC_handle scenarioC_finalRows scenarioC_candidate3 scenarioC_candidates
        w wid deleteMetrics_def mkRow_simps columnOf_def rowsOfResult_def)
qed

text \<open>
  Claim C1 as stated gives the third row the final status ExcludedUnstableQC; the result
  of the engine on Scenario C differs from that list of statuses.
\<close>

theorem scenario_C_excluded_status_counterexample:
  "columnOf ''_derep_status'' (rowsOfResult (handleDereplication J0 (Some scenarioC)))
     \<noteq> [Some (Str Removed), Some (Str Retained), Some (Str ExcludedUnstableQC)]"
  by (simp add: scenarioC_handle_J0 scenarioC_finalRows_J0 deleteMetrics_def mkRow_simps columnOf_def
      rowsOfResult_def Removed_def ExcludedUnstableQC_def)

section \<open>The QC mean\<close>

lemma foldl_plus_sum_list: "foldl (\<lambda>a b. a + b) a xs = a + sum_list (xs :: real list)"
  by (induction xs arbitrary: a) simp_all

lemma reduceSum_sum_list: "reduceSum xs = sum_list xs"
  by (simp add: reduceSum_def foldl_plus_sum_list)

lemma qcValuesOf_pos: "v \<in> set (qcValuesOf J cols row) \<Longrightarrow> 0 < v"
  by (simp add: qcValuesOf_def)

lemma sum_list_pos_real: "xs \<noteq> [] \<Longrightarrow> (\<forall>x\<in>set xs. 0 < x) \<Longrightarrow> 0 < sum_list (xs :: real list)"
  by (induction xs) (auto intro: add_pos_nonneg sum_list_nonneg less_imp_le)

text \<open>
  Claim C10.  The QC values collected for a row are all above zero, so whenever the mean is
  computed (at least two values) it is above zero: the test \<^verbatim>\<open>mean === 0\<close> is never true and
  the exclusion behind it is never taken.
\<close>

theorem qc_mean_zero_unreachable:
  "(\<forall>v \<in> set (qcValuesOf J qcCols row). 0 < v)
   \<and> (\<not> length (qcValuesOf J qcCols row) < 2 \<longrightarrow>
        0 < reduceSum (qcValuesOf J qcCols row) / real (length (qcValuesOf J qcCols row))
        \<and> reduceSum (qcValuesOf J qcCols row) / real (length (qcValuesOf J qcCols row)) \<noteq> 0)"
proof -
  have pos: "\<forall>v \<in> set (qcValuesOf J qcCols row). 0 < v" by (simp add: qcValuesOf_pos)
  { assume "\<not> length (qcValuesOf J qcCols row) < 2"
    then have ne: "qcValuesOf J qcCols row \<noteq> []" by auto
    then have "0 < reduceSum (qcValuesOf J qcCols row)"
      using pos by (simp add: reduceSum_sum_list sum_list_pos_real)
    then have "0 < reduceSum (qcValuesOf J qcCols row) / real (length (qcValuesOf J qcCols row))"
      using ne by simp }
  then show ?thesis using pos by auto
qed

section \<open>The QC mean on Scenario C\<close>

lemma scenario_qcValues:
  "qcValuesOf J [''QC-1'', ''QC-2'', ''QC-3''] (mkRow i b q1 q2 q3) = filter (\<lambda>v. v > 0) [q1, q2, q3]"
  by (simp add: qcValuesOf_def numbers_def List.map_filter_def mkRow_simps)

theorem qc_mean_zero_unreachable_witness:
  "\<not> length (qcValuesOf J0 [''QC-1'', ''QC-2'', ''QC-3''] (mkRow 1 50 95 100 105)) < 2
   \<and> 0 < reduceSum (qcValuesOf J0 [''QC-1'', ''QC-2'', ''QC-3''] (mkRow 1 50 95 100 105))
          / real (length (qcValuesOf J0 [''QC-1'', ''QC-2'', ''QC-3''] (mkRow 1 50 95 100 105)))"
proof -
  have h: "\<not> length (qcValuesOf J0 [''QC-1'', ''QC-2'', ''QC-3''] (mkRow 1 50 95 100 105)) < 2"
    by (simp add: scenario_qcValues)
  from qc_mean_zero_unreachable [of J0 "[''QC-1'', ''QC-2'', ''QC-3'']" "mkRow 1 50 95 100 105"] h
  show ?thesis by blast
qed

section \<open>Properties of the annotation arbiter\<close>

lemma gt_Some_iff: "gt v (Some k) \<longleftrightarrow> (\<exists>m. v = Some m \<and> m > k)"
  by (cases v) simp_all

lemma lt_abs_Some_iff: "lt (Math_abs v) (Some k) \<longleftrightarrow> (\<exists>e. v = Some e \<and> \<bar>e\<bar> < k)"
  by (cases v) (simp_all add: Math_abs_def)

lemma String_orEmpty: "String J (orEmpty v) = fieldText J v"
proof (cases v)
  case None
  then show ?thesis by (simp add: orEmpty_def fieldText_def)
next
  case (Some c)
  then show ?thesis by (cases c) (simp_all add: orEmpty_def fieldText_def)
qed

lemma fieldText_missing:
  "v \<in> {None, Some Null, Some (Str []), Some (Num 0)} \<Longrightarrow> fieldText J v = []"
  by (auto simp: fieldText_def)

text \<open>
  Claim C4.  With \<open>a\<close> and \<open>b\<close> the trimmed texts of the name fields of the two sources (the
  text of a field that is missing, null, empty or zero is empty), the arbiter returns the
  empty string when both are empty, the one that is present when exactly one is, \<open>a\<close> when
  the runtime's lower-casing makes them equal, and otherwise \<open>b\<close> when \<open>strongA\<close> and \<open>strongB\<close>
  hold, \<open>a\<close> when only \<open>strongA\<close> holds, \<open>b\<close> when only \<open>strongB\<close> holds and \<open>a\<close> when neither
  does; \<open>strongA\<close> asks that the MQ score parses and is above 0.9, the library quality is
  Gold, the shared peaks parse and are above 10 and the m/z error parses and is below 5 in
  absolute value, \<open>strongB\<close> that the confidence parses and is above 0.8.  For a runtime that
  trims the empty string to itself, two missing names give the empty string.
\<close>

theorem determineFinalAnnotation_rules:
  "let a = trim J (fieldText J (row ''Compound_Name''));
       b = trim J (fieldText J (row ''name''));
       strongA = ((\<exists>m. parseFloat J (String J (row ''MQScore'')) = Some m \<and> m > 9 / 10)
                  \<and> fieldText J (row ''LibraryQualityString'') = ''Gold''
                  \<and> (\<exists>p. parseInt J (String J (row ''SharedPeaks'')) = Some p \<and> p > 10)
                  \<and> (\<exists>e. parseFloat J (String J (row ''MZErrorPPM'')) = Some e \<and> \<bar>e\<bar> < 5));
       strongB = (\<exists>c. parseFloat J (String J (row ''ConfidenceScoreExact'')) = Some c \<and> c > 8 / 10);
       r = determineFinalAnnotation J row
   in (a = [] \<and> b = [] \<longrightarrow> r = [])
    \<and> (a \<noteq> [] \<and> b = [] \<longrightarrow> r = a)
    \<and> (a = [] \<and> b \<noteq> [] \<longrightarrow> r = b)
    \<and> (a \<noteq> [] \<and> b \<noteq> [] \<and> toLowerCase J a = toLowerCase J b \<longrightarrow> r = a)
    \<and> (a \<noteq> [] \<and> b \<noteq> [] \<and> toLowerCase J a \<noteq> toLowerCase J b \<longrightarrow>
          (strongA \<and> strongB \<longrightarrow> r = b)
        \<and> (strongA \<and> \<not> strongB \<longrightarrow> r = a)
        \<and> (\<not> strongA \<and> strongB \<longrightarrow> r = b)
        \<and> (\<not> strongA \<and> \<not> strongB \<longrightarrow> r = a))
    \<and> (trim J [] = []
         \<and> row ''Compound_Name'' \<in> {None, Some Null, Some (Str []), Some (Num 0)}
         \<and> row ''name'' \<in> {None, Some Null, Some (Str []), Some (Num 0)} \<longrightarrow> r = [])"
proof -
  define a where "a = trim J (fieldText J (row ''Compound_Name''))"
  define b where "b = trim J (fieldText J (row ''name''))"
  define mq where "mq = parseFloat J (String J (row ''MQScore''))"
  define sp where "sp = parseInt J (String J (row ''SharedPeaks''))"
  define mz where "mz = parseFloat J (String J (row ''MZErrorPPM''))"
  define cf where "cf = parseFloat J (String J (row ''ConfidenceScoreExact''))"
  define lib where "lib = fieldText J (row ''LibraryQualityString'')"
  define sA where "sA \<longleftrightarrow> (\<exists>m. mq = Some m \<and> m > 9 / 10) \<and> lib = ''Gold''
                      \<and> (\<exists>p. sp = Some p \<and> p > 10) \<and> (\<exists>e. mz = Some e \<and> \<bar>e\<bar> < 5)"
  define sB where "sB \<longleftrightarrow> (\<exists>c. cf = Some c \<and> c > 8 / 10)"
  define miss where "miss \<longleftrightarrow> trim J [] = []
         \<and> row ''Compound_Name'' \<in> {None, Some Null, Some (Str []), Some (Num 0)}
         \<and> row ''name'' \<in> {None, Some Null, Some (Str []), Some (Num 0)}"
  have cA: "(\<not> isNaN mq \<and> \<not> isNaN sp \<and> \<not> isNaN mz \<and> gt mq (Some (9 / 10)) \<and> lib = ''Gold''
             \<and> gt sp (Some 10) \<and> lt (Math_abs mz) (Some 5)) \<longleftrightarrow> sA"
    unfolding sA_def gt_Some_iff lt_abs_Some_iff isNaN_def by blast
  have cB: "(\<not> isNaN cf \<and> gt cf (Some (8 / 10))) \<longleftrightarrow> sB"
    unfolding sB_def gt_Some_iff isNaN_def by blast
  have r: "determineFinalAnnotation J row =
     (if a = [] \<and> b = [] then []
      else if a \<noteq> [] \<and> b = [] then a
      else if a = [] \<and> b \<noteq> [] then b
      else if toLowerCase J a = toLowerCase J b then a
      else if sA \<and> sB then b else if sA then a else if sB then b else a)"
    unfolding determineFinalAnnotation_def Let_def String_orEmpty
      a_def [symmetric] b_def [symmetric] mq_def [symmetric] sp_def [symmetric]
      mz_def [symmetric] cf_def [symmetric] lib_def [symmetric] cA cB
    by (rule refl)
  have m: "miss \<longrightarrow> a = [] \<and> b = []"
    unfolding miss_def a_def b_def by (auto simp: fieldText_missing)
  have "(a = [] \<and> b = [] \<longrightarrow> determineFinalAnnotation J row = [])
    \<and> (a \<noteq> [] \<and> b = [] \<longrightarrow> determineFinalAnnotation J row = a)
    \<and> (a = [] \<and> b \<noteq> [] \<longrightarrow> determineFinalAnnotation J row = b)
    \<and> (a \<noteq> [] \<and> b \<noteq> [] \<and> toLowerCase J a = toLowerCase J b \<longrightarrow> determineFinalAnnotation J row = a)
    \<and> (a \<noteq> [] \<and> b \<noteq> [] \<and> toLowerCase J a \<noteq> toLowerCase J b \<longrightarrow>
          (sA \<and> sB \<longrightarrow> determineFinalAnnotation J row = b)
        \<and> (sA \<and> \<not> sB \<longrightarrow> determineFinalAnnotation J row = a)
        \<and> (\<not> sA \<and> sB \<longrightarrow> determineFinalAnnotation J row = b)
        \<and> (\<not> sA \<and> \<not> sB \<longrightarrow> determineFinalAnnotation J row = a))
    \<and> (miss \<longrightarrow> determineFinalAnnotation J row = [])"
    using m unfolding r by simp
  then show ?thesis
    unfolding Let_def sA_def sB_def miss_def a_def b_def mq_def sp_def mz_def cf_def lib_def .
qed

theorem determineFinalAnnotation_rules_witness:
  "trim J0 (fieldText J0 (arbiterRow ''Compound_Name'')) = ''Abc''
   \<and> trim J0 (fieldText J0 (arbiterRow ''name'')) = ''xyz''
   \<and> toLowerCase J0 ''Abc'' \<noteq> toLowerCase J0 ''xyz''
   \<and> parseFloat J0 (String J0 (arbiterRow ''MQScore'')) = Some (95 / 100)
   \<and> fieldText J0 (arbiterRow ''LibraryQualityString'') = ''Gold''
   \<and> parseInt J0 (String J0 (arbiterRow ''SharedPeaks'')) = Some 12
   \<and> parseFloat J0 (String J0 (arbiterRow ''MZErrorPPM'')) = Some (- 3 / 2)
   \<and> parseFloat J0 (String J0 (arbiterRow ''ConfidenceScoreExact'')) = Some (1 / 2)
   \<and> determineFinalAnnotation J0 arbiterRow = ''Abc''
   \<and> trim J0 [] = []
   \<and> determineFinalAnnotation J0 [''Compound_Name'' \<mapsto> Null, ''MQScore'' \<mapsto> Str ''0.95''] = []"
proof -
  have a: "trim J0 (fieldText J0 (arbiterRow ''Compound_Name'')) = ''Abc''"
    and b: "trim J0 (fieldText J0 (arbiterRow ''name'')) = ''xyz''"
    by (simp_all add: arbiterRow_def fieldText_def J0_def trimAscii_def isSpace_def)
  have l: "toLowerCase J0 ''Abc'' \<noteq> toLowerCase J0 ''xyz''"
    by (simp add: J0_def toLowerCaseAscii_def lowerChar_def)
  have f: "parseFloat J0 (String J0 (arbiterRow ''MQScore'')) = Some (95 / 100)"
    "fieldText J0 (arbiterRow ''LibraryQualityString'') = ''Gold''"
    "parseInt J0 (String J0 (arbiterRow ''SharedPeaks'')) = Some 12"
    "parseFloat J0 (String J0 (arbiterRow ''MZErrorPPM'')) = Some (- 3 / 2)"
    "parseFloat J0 (String J0 (arbiterRow ''ConfidenceScoreExact'')) = Some (1 / 2)"
    by (simp_all add: arbiterRow_def fieldText_def J0_def)
  have s1: "\<exists>m. parseFloat J0 (String J0 (arbiterRow ''MQScore'')) = Some m \<and> m > 9 / 10"
    by (rule exI [of _ "95 / 100"]) (simp add: f)
  have s2: "\<exists>p. parseInt J0 (String J0 (arbiterRow ''SharedPeaks'')) = Some p \<and> p > 10"
    by (rule exI [of _ 12]) (simp add: f)
  have s3: "\<exists>e. parseFloat J0 (String J0 (arbiterRow ''MZErrorPPM'')) = Some e \<and> \<bar>e\<bar> < 5"
    by (rule exI [of _ "- 3 / 2"]) (simp add: f)
  have sA: "(\<exists>m. parseFloat J0 (String J0 (arbiterRow ''MQScore'')) = Some m \<and> m > 9 / 10)
           \<and> fieldText J0 (arbiterRow ''LibraryQualityString'') = ''Gold''
           \<and> (\<exists>p. parseInt J0 (String J0 (arbiterRow ''SharedPeaks'')) = Some p \<and> p > 10)
           \<and> (\<exists>e. parseFloat J0 (String J0 (arbiterRow ''MZErrorPPM'')) = Some e \<and> \<bar>e\<bar> < 5)"
    using s1 s2 s3 f(2) by blast
  have nB: "\<not> (\<exists>c. parseFloat J0 (String J0 (arbiterRow ''ConfidenceScoreExact'')) = Some c \<and> c > 8 / 10)"
    by (simp add: f)
  have ne: "trim J0 (fieldText J0 (arbiterRow ''Compound_Name'')) \<noteq> []"
    "trim J0 (fieldText J0 (arbiterRow ''name'')) \<noteq> []"
    "toLowerCase J0 (trim J0 (fieldText J0 (arbiterRow ''Compound_Name'')))
       \<noteq> toLowerCase J0 (trim J0 (fieldText J0 (arbiterRow ''name'')))"
    using l by (simp_all add: a b)
  from determineFinalAnnotation_rules [of J0 arbiterRow, unfolded Let_def] sA nB ne
  have "determineFinalAnnotation J0 arbiterRow = trim J0 (fieldText J0 (arbiterRow ''Compound_Name''))"
    by blast
  then have r: "determineFinalAnnotation J0 arbiterRow = ''Abc''"
    by (rule trans) (rule a)
  have t: "trim J0 [] = []" by (simp add: J0_def trimAscii_def)
  let ?m = "[''Compound_Name'' \<mapsto> Null, ''MQScore'' \<mapsto> Str ''0.95''] :: TableRow"
  have "?m ''Compound_Name'' \<in> {None, Some Null, Some (Str []), Some (Num 0)}"
    "?m ''name'' \<in> {None, Some Null, Some (Str []), Some (Num 0)}"
    by simp_all
  with determineFinalAnnotation_rules [of J0 ?m, unfolded Let_def] t
  have e: "determineFinalAnnotation J0 ?m = []" by blast
  show ?thesis by (intro conjI a b l f r t e)
qed

section \<open>Properties of the table merger\<close>

lemma newMap_snoc: "newMap (kvs @ [(k, v)]) = (newMap kvs)(k \<mapsto> v)"
  by (simp add: newMap_def)

lemma newMap_lookup:
  "newMap kvs k = (if filter (\<lambda>kv. fst kv = k) kvs = [] then None
                   else Some (snd (last (filter (\<lambda>kv. fst kv = k) kvs))))"
proof (induction kvs rule: rev_induct)
  case Nil
  then show ?case by (simp add: newMap_def)
next
  case (snoc kv kvs)
  obtain k' v where kv: "kv = (k', v)" by (cases kv)
  show ?case using snoc by (simp add: kv newMap_snoc)
qed

lemma newRowData_apply:
  "newRowData cols m c = (if c \<in> set cols then Some (orNull (m c)) else None)"
proof (induction cols rule: rev_induct)
  case Nil
  then show ?case by (simp add: newRowData_def)
next
  case (snoc x xs)
  then show ?case by (simp add: newRowData_def)
qed

lemma matchMapID_lookup:
  "matchMapID J rs k =
    (let hits = filter (\<lambda>r. \<not> nullish (r ''ID'') \<and> trim J (String J (r ''ID'')) \<noteq> []
                            \<and> trim J (String J (r ''ID'')) = k) rs
     in if hits = [] then None else Some (last hits))"
proof -
  let ?P = "\<lambda>r. \<not> nullish (r ''ID'') \<and> trim J (String J (r ''ID'')) \<noteq> []"
  let ?f = "\<lambda>row. (trim J (String J (row ''ID'')), row)"
  have e: "filter (\<lambda>kv. fst kv = k) (map ?f (filter ?P rs))
           = map ?f (filter (\<lambda>r. ?P r \<and> trim J (String J (r ''ID'')) = k) rs)"
    by (simp add: filter_map o_def conj_commute)
  show ?thesis
    unfolding matchMapID_def newMap_lookup e Let_def
    by (simp add: last_map conj_assoc)
qed

text \<open>
  Claim C5.  In the exact-key merge the result has one row for each base row, in order.
  With \<open>hits\<close> the incoming rows whose key is present, not empty after the runtime's
  trimming and, trimmed, equal to the trimmed key of the base row: a base row whose key is
  null, missing or empty is
  returned unchanged; so is a base row without hits; and a base row with a proper key and
  hits gets, for each configured append column, the value of the last hit (null when the
  hit has none) and keeps every other column.
\<close>

theorem exact_merge_rows:
  assumes "handleFileProcess J stepConfig data (Some mergedData) (Some netTable) = Inr (T', unmatched)"
    and "matchColumn stepConfig = ''ID''"
  shows "length (rows T') = length (rows mergedData)
     \<and> (\<forall>i<length (rows mergedData).
          let baseRow = rows mergedData ! i;
              key = trim J (String J (baseRow ''ID''));
              hits = filter (\<lambda>r. r ''ID'' \<noteq> None \<and> r ''ID'' \<noteq> Some Null
                                  \<and> trim J (String J (r ''ID'')) \<noteq> []
                                  \<and> trim J (String J (r ''ID'')) = key) (rows data)
          in (baseRow ''ID'' = None \<or> baseRow ''ID'' = Some Null \<or> key = [] \<longrightarrow> rows T' ! i = baseRow)
           \<and> (hits = [] \<longrightarrow> rows T' ! i = baseRow)
           \<and> (baseRow ''ID'' \<noteq> None \<and> baseRow ''ID'' \<noteq> Some Null \<and> key \<noteq> [] \<and> hits \<noteq> [] \<longrightarrow>
                (\<forall>col. (rows T' ! i) col =
                   (if col \<in> set (appendColumns stepConfig)
                    then Some (case last hits col of None \<Rightarrow> Null | Some c \<Rightarrow> c)
                    else baseRow col))))"
proof -
  from assms have T': "rows T' = mergeRowsID J (appendColumns stepConfig) (rows data) (rows mergedData)"
    by (auto simp: handleFileProcess_def Let_def split: if_splits)
  have len: "length (rows T') = length (rows mergedData)"
    by (simp add: T' mergeRowsID_def)
  have row: "rows T' ! i =
        (let baseRow = rows mergedData ! i; baseId = baseRow ''ID''
         in if nullish baseId \<or> trim J (String J baseId) = [] then baseRow
            else (case matchMapID J (rows data) (trim J (String J baseId)) of
                    Some match \<Rightarrow> baseRow ++ newRowData (appendColumns stepConfig) match
                  | None \<Rightarrow> baseRow))"
    if "i < length (rows mergedData)" for i
    using that by (simp add: T' mergeRowsID_def Let_def)
  show ?thesis
  proof (intro conjI allI impI len)
    fix i assume i: "i < length (rows mergedData)"
    show "let baseRow = rows mergedData ! i;
              key = trim J (String J (baseRow ''ID''));
              hits = filter (\<lambda>r. r ''ID'' \<noteq> None \<and> r ''ID'' \<noteq> Some Null
                                  \<and> trim J (String J (r ''ID'')) \<noteq> []
                                  \<and> trim J (String J (r ''ID'')) = key) (rows data)
          in (baseRow ''ID'' = None \<or> baseRow ''ID'' = Some Null \<or> key = [] \<longrightarrow> rows T' ! i = baseRow)
           \<and> (hits = [] \<longrightarrow> rows T' ! i = baseRow)
           \<and> (baseRow ''ID'' \<noteq> None \<and> baseRow ''ID'' \<noteq> Some Null \<and> key \<noteq> [] \<and> hits \<noteq> [] \<longrightarrow>
                (\<forall>col. (rows T' ! i) col =
                   (if col \<in> set (appendColumns stepConfig)
                    then Some (case last hits col of None \<Rightarrow> Null | Some c \<Rightarrow> c)
                    else baseRow col)))"
      unfolding row [OF i] matchMapID_lookup Let_def
      by (simp add: map_add_def newRowData_apply nullish_def orNull_def conj_assoc)
  qed
qed

lemma idStep_result:
  "handleFileProcess J0 idStep idIncoming (Some idBase) (Some idBase)
     = Inr (\<lparr>headers = [''ID'', ''MZ'', ''Compound_Name'', ''Adduct''],
             rows = mergeRowsID J0 [''Compound_Name'', ''Adduct''] (rows idIncoming) (rows idBase)\<rparr>,
            map (\<lambda>id. Some (Str id)) (foundUnmatchedID J0 (rows idIncoming) (rows idBase)))"
  by (simp add: handleFileProcess_def idStep_def Let_def) (simp add: idBase_def idIncoming_def)

theorem exact_merge_rows_witness:
  "matchColumn idStep = ''ID''
   \<and> handleFileProcess J0 idStep idIncoming (Some idBase) (Some idBase)
     = Inr (\<lparr>headers = [''ID'', ''MZ'', ''Compound_Name'', ''Adduct''],
             rows = mergeRowsID J0 [''Compound_Name'', ''Adduct''] (rows idIncoming) (rows idBase)\<rparr>,
            map (\<lambda>id. Some (Str id)) (foundUnmatchedID J0 (rows idIncoming) (rows idBase)))
   \<and> length (mergeRowsID J0 [''Compound_Name'', ''Adduct''] (rows idIncoming) (rows idBase)) = 3
   \<and> (mergeRowsID J0 [''Compound_Name'', ''Adduct''] (rows idIncoming) (rows idBase) ! 1) ''Compound_Name''
        = Some (Str ''Y'')
   \<and> (mergeRowsID J0 [''Compound_Name'', ''Adduct''] (rows idIncoming) (rows idBase) ! 1) ''Adduct''
        = Some Null
   \<and> (mergeRowsID J0 [''Compound_Name'', ''Adduct''] (rows idIncoming) (rows idBase) ! 1) ''ID''
        = Some (Str ''2'')
   \<and> mergeRowsID J0 [''Compound_Name'', ''Adduct''] (rows idIncoming) (rows idBase) ! 0 = rows idBase ! 0
   \<and> mergeRowsID J0 [''Compound_Name'', ''Adduct''] (rows idIncoming) (rows idBase) ! 2 = rows idBase ! 2"
proof -
  let ?out = "mergeRowsID J0 [''Compound_Name'', ''Adduct''] (rows idIncoming) (rows idBase)"
  have m: "matchColumn idStep = ''ID''" by (simp add: idStep_def)
  note t = exact_merge_rows [OF idStep_result m]
  have cols: "appendColumns idStep = [''Compound_Name'', ''Adduct'']" by (simp add: idStep_def)
  have len: "length (rows idBase) = 3" by (simp add: idBase_def)
  have b: "rows idBase ! 0 = [''ID'' \<mapsto> Str ''1'', ''MZ'' \<mapsto> Num 1]"
    "rows idBase ! 1 = [''ID'' \<mapsto> Str ''2'', ''MZ'' \<mapsto> Num 1]"
    "rows idBase ! 2 = [''ID'' \<mapsto> Null, ''MZ'' \<mapsto> Num 1]"
    "rows idBase ! Suc 0 = [''ID'' \<mapsto> Str ''2'', ''MZ'' \<mapsto> Num 1]"
    by (simp_all add: idBase_def)
  have tr: "trim J0 ''1'' = ''1''" "trim J0 ''2'' = ''2''" "trim J0 '' 2'' = ''2''"
    "trim J0 ''2 '' = ''2''"
    by (simp_all add: J0_def trimAscii_def isSpace_def)
  from t have l: "length ?out = 3" by (simp add: len)
  have i0: "(0::nat) < length (rows idBase)" and i1: "(1::nat) < length (rows idBase)"
    and i2: "(2::nat) < length (rows idBase)" by (simp_all add: len)
  have inc: "rows idIncoming = [[''ID'' \<mapsto> Str '' 2'', ''Compound_Name'' \<mapsto> Str ''X''],
             [''ID'' \<mapsto> Str ''2 '', ''Compound_Name'' \<mapsto> Str ''Y'']]"
    by (simp add: idIncoming_def)
  have r0: "?out ! 0 = rows idBase ! 0"
    using t [THEN conjunct2, THEN spec, THEN mp, OF i0]
    by (simp add: Let_def b inc tr)
  have r2: "?out ! 2 = rows idBase ! 2"
    using t [THEN conjunct2, THEN spec, THEN mp, OF i2]
    by (simp add: Let_def b)
  have r1: "\<forall>col. (?out ! 1) col =
                   (if col \<in> set [''Compound_Name'', ''Adduct'']
                    then Some (case [''ID'' \<mapsto> Str ''2 '', ''Compound_Name'' \<mapsto> Str ''Y''] col of
                                 None \<Rightarrow> Null | Some c \<Rightarrow> c)
                    else (rows idBase ! 1) col)"
    using t [THEN conjunct2, THEN spec, THEN mp, OF i1]
    by (simp add: Let_def b inc tr cols)
  from r1 have "(?out ! 1) ''Compound_Name'' = Some (Str ''Y'')" "(?out ! 1) ''Adduct'' = Some Null"
    "(?out ! 1) ''ID'' = Some (Str ''2'')"
    by (simp_all add: orNull_def b)
  with m idStep_result l r0 r2 show ?thesis by blast
qed

subsection \<open>Unmatched keys\<close>

lemma uniqueInOrder_acc:
  "distinct acc \<Longrightarrow>
     distinct (foldl (\<lambda>acc x. if x \<in> set acc then acc else acc @ [x]) acc xs)
     \<and> set (foldl (\<lambda>acc x. if x \<in> set acc then acc else acc @ [x]) acc xs) = set acc \<union> set xs"
  by (induction xs arbitrary: acc) auto

lemma uniqueInOrder_set [simp]: "set (uniqueInOrder xs) = set xs"
  and uniqueInOrder_distinct [simp]: "distinct (uniqueInOrder xs)"
  using uniqueInOrder_acc [of "[]" xs] by (simp_all add: uniqueInOrder_def)

lemma foundUnmatchedID_dedup:
  "distinct (foundUnmatchedID J dataRows netRows)
   \<and> set (foundUnmatchedID J dataRows netRows)
      = {trim J (String J (r ''ID'')) | r. r \<in> set dataRows \<and> \<not> nullish (r ''ID'') \<and> trim J (String J (r ''ID'')) \<noteq> []}
        - {k. k \<noteq> [] \<and> (\<exists>r \<in> set netRows. k = trim J (String J (r ''ID'')))}"
  by (auto simp: foundUnmatchedID_def Let_def)

text \<open>
  Claim C3.  The exact-key merge reports each unmatched key once (lemma
  \<open>foundUnmatchedID_dedup\<close>).  The tolerance merge does not: for an incoming table with the
  mass 5 in two rows and a base table without that mass it reports the raw value twice.
\<close>

theorem tolerance_unmatched_not_deduplicated:
  "(case handleFileProcess J0 massStep massIncoming (Some idBase) (Some idBase) of
      Inr (T, unmatched) \<Rightarrow> unmatched | Inl e \<Rightarrow> [])
   = [Some (Num 5), Some (Num 5)]"
proof -
  have "handleFileProcess J0 massStep massIncoming (Some idBase) (Some idBase)
     = Inr (\<lparr>headers = [''ID'', ''MZ'', ''molecularFormula''],
             rows = mergeRowsMass J0 ''MZ'' [''molecularFormula''] (rows massIncoming) (rows idBase) (rows idBase)\<rparr>,
            foundUnmatchedMass J0 ''MZ'' (rows massIncoming) (rows idBase))"
    by (simp add: handleFileProcess_def massStep_def Let_def) (simp add: idBase_def massIncoming_def)
  moreover have "foundUnmatchedMass J0 ''MZ'' (rows massIncoming) (rows idBase) = [Some (Num 5), Some (Num 5)]"
    by (simp add: foundUnmatchedMass_def Let_def idBase_def massIncoming_def nullish_def isNaN_def
        toFixed_def J0_def)
  ultimately show ?thesis by simp
qed

section \<open>Properties of the reassembly\<close>

lemma pushToGroup_mset:
  "mset (concat (map snd (pushToGroup k r gs))) = mset (concat (map snd gs)) + {#r#}"
  by (induction k r gs rule: pushToGroup.induct) simp_all

lemma pushToGroup_nonempty:
  "\<forall>g \<in> set gs. snd g \<noteq> [] \<Longrightarrow> \<forall>g \<in> set (pushToGroup k r gs). snd g \<noteq> []"
  by (induction k r gs rule: pushToGroup.induct) simp_all

lemma groupStep_mset:
  "mset (concat (map snd (fst (groupStep J st r))) @ snd (groupStep J st r))
     = mset (concat (map snd (fst st)) @ snd st) + {#r#}"
  by (simp add: groupStep_def Let_def pushToGroup_mset)

lemma groupStep_nonempty:
  "\<forall>g \<in> set (fst st). snd g \<noteq> [] \<Longrightarrow> \<forall>g \<in> set (fst (groupStep J st r)). snd g \<noteq> []"
  using pushToGroup_nonempty by (simp add: groupStep_def Let_def)

lemma foldl_groupStep:
  "mset (concat (map snd (fst (foldl (groupStep J) st rs))) @ snd (foldl (groupStep J) st rs))
     = mset (concat (map snd (fst st)) @ snd st) + mset rs
   \<and> ((\<forall>g \<in> set (fst st). snd g \<noteq> []) \<longrightarrow>
        (\<forall>g \<in> set (fst (foldl (groupStep J) st rs)). snd g \<noteq> []))"
proof (induction rs arbitrary: st)
  case Nil
  then show ?case by simp
next
  case (Cons r rs)
  show ?case
    using Cons [of "groupStep J st r"] groupStep_mset [of J st r] groupStep_nonempty [of st J r]
    by (simp add: add.assoc)
qed

lemma grouping_mset:
  "mset (concat (map snd (fst (grouping J rs))) @ snd (grouping J rs)) = mset rs"
  using foldl_groupStep [of J "([], [])" rs] by (simp add: grouping_def)

lemma grouping_nonempty: "\<forall>g \<in> set (fst (grouping J rs)). snd g \<noteq> []"
  using foldl_groupStep [of J "([], [])" rs] by (simp add: grouping_def)

lemma processGroup_statusAdded:
  assumes "g \<noteq> []"
  shows "list_all2 statusAdded g (processGroup J b q g)"
proof (cases "length g \<le> 1")
  case True
  with assms obtain r where "g = [r]" by (cases g) auto
  then show ?thesis by (simp add: processGroup_def statusAdded_def)
next
  case False
  then have "processGroup J b q g = markResults (selectWinner J b (candidatesOf J b q g)) g"
    by (simp add: processGroup_def)
  moreover have "list_all2 statusAdded g (markResults w g)" for w
    unfolding markResults_def list_all2_map2
    by (rule list_all2_refl) (simp add: statusAdded_def split: option.split)
  ultimately show ?thesis by simp
qed

lemma processed_statusAdded:
  "\<forall>g \<in> set groups. snd g \<noteq> [] \<Longrightarrow>
     list_all2 statusAdded (concat (map snd groups))
       (concat (map (\<lambda>(key, groupRows). processGroup J b q groupRows) groups))"
proof (induction groups)
  case Nil
  then show ?case by simp
next
  case (Cons g groups)
  obtain k rs where g: "g = (k, rs)" by (cases g)
  with Cons.prems have "rs \<noteq> []" by simp
  then have "list_all2 statusAdded rs (processGroup J b q rs)" by (rule processGroup_statusAdded)
  moreover have "list_all2 statusAdded (concat (map snd groups))
       (concat (map (\<lambda>(key, groupRows). processGroup J b q groupRows) groups))"
    using Cons by simp
  ultimately show ?case by (simp add: g list_all2_appendI)
qed

lemma finalRowsOf_sort:
  "\<exists>F. list_all2 outputOf (reassembled J rs) F \<and> finalRowsOf J b q rs = sort_key (orderKey rs) F"
proof -
  obtain groups unknowns where gr: "grouping J rs = (groups, unknowns)" by (cases "grouping J rs")
  let ?pre = "concat (map (\<lambda>(key, groupRows). processGroup J b q groupRows) groups)
              @ map (\<lambda>row. row(''_derep_status'' \<mapsto> Str Retained)) unknowns"
  have ne: "\<forall>g \<in> set groups. snd g \<noteq> []" using grouping_nonempty [of J rs] by (simp add: gr)
  have "list_all2 statusAdded unknowns (map (\<lambda>row. row(''_derep_status'' \<mapsto> Str Retained)) unknowns)"
    unfolding list_all2_map2 by (rule list_all2_refl) (simp add: statusAdded_def)
  with processed_statusAdded [OF ne, of J b q]
  have "list_all2 statusAdded (concat (map snd groups) @ unknowns) ?pre"
    by (rule list_all2_appendI)
  then have "list_all2 outputOf (concat (map snd groups) @ unknowns) (map deleteMetrics ?pre)"
    unfolding list_all2_map2
    by (rule list_all2_mono) (auto simp: statusAdded_def outputOf_def)
  moreover have "finalRowsOf J b q rs = sort_key (orderKey rs) (map deleteMetrics ?pre)"
    by (simp add: finalRowsOf_def gr Let_def)
  ultimately show ?thesis by (auto simp: reassembled_def gr)
qed

lemma reassembled_mset: "mset (reassembled J rs) = mset rs"
  by (simp add: reassembled_def grouping_mset [simplified])

lemma rowOrderMap_snoc: "rowOrderMap (rs @ [r]) = (rowOrderMap rs)(r ''ID'' \<mapsto> length rs)"
  by (simp add: rowOrderMap_def newMap_snoc)

lemma rowOrderMap_None: "rowOrderMap rs k = None \<longleftrightarrow> k \<notin> (\<lambda>r. r ''ID'') ` set rs"
proof (induction rs rule: rev_induct)
  case Nil
  then show ?case by (simp add: rowOrderMap_def newMap_def)
next
  case (snoc r rs)
  then show ?case by (auto simp: rowOrderMap_snoc)
qed

lemma rowOrderMap_last:
  "i < length rs \<Longrightarrow> \<forall>j. i < j \<and> j < length rs \<longrightarrow> (rs ! j) ''ID'' \<noteq> (rs ! i) ''ID''
     \<Longrightarrow> rowOrderMap rs ((rs ! i) ''ID'') = Some i"
proof (induction rs rule: rev_induct)
  case Nil
  then show ?case by simp
next
  case (snoc r rs)
  show ?case
  proof (cases "i = length rs")
    case True
    then show ?thesis by (simp add: rowOrderMap_snoc)
  next
    case False
    with snoc.prems(1) have i: "i < length rs" by simp
    from snoc.prems(2) [rule_format, of "length rs"] i
    have ne: "r ''ID'' \<noteq> (rs ! i) ''ID''" by (simp add: nth_append)
    have "\<forall>j. i < j \<and> j < length rs \<longrightarrow> (rs ! j) ''ID'' \<noteq> (rs ! i) ''ID''"
    proof (intro allI impI)
      fix j assume j: "i < j \<and> j < length rs"
      with snoc.prems(2) [rule_format, of j] i show "(rs ! j) ''ID'' \<noteq> (rs ! i) ''ID''"
        by (simp add: nth_append)
    qed
    with snoc.IH i have "rowOrderMap rs ((rs ! i) ''ID'') = Some i" by simp
    with ne i show ?thesis by (simp add: rowOrderMap_snoc nth_append)
  qed
qed

lemma orderKey_distinct:
  assumes "distinct (map (\<lambda>r. r ''ID'') rs)" and "i < length rs" and "r' ''ID'' = (rs ! i) ''ID''"
  shows "orderKey rs r' = enat i"
proof -
  have "\<forall>j. i < j \<and> j < length rs \<longrightarrow> (rs ! j) ''ID'' \<noteq> (rs ! i) ''ID''"
  proof (intro allI impI)
    fix j assume "i < j \<and> j < length rs"
    with assms(1,2) have "map (\<lambda>r. r ''ID'') rs ! j \<noteq> map (\<lambda>r. r ''ID'') rs ! i"
      by (simp add: nth_eq_iff_index_eq del: nth_map)
    with \<open>i < j \<and> j < length rs\<close> assms(2) show "(rs ! j) ''ID'' \<noteq> (rs ! i) ''ID''" by simp
  qed
  with assms(2) have "rowOrderMap rs ((rs ! i) ''ID'') = Some i" by (rule rowOrderMap_last)
  then show ?thesis by (simp add: orderKey_def assms(3))
qed

lemma outputOf_ID: "outputOf r r' \<Longrightarrow> r' ''ID'' = r ''ID''"
  by (auto simp: outputOf_def deleteMetrics_def)

lemma list_all2_distinct_map:
  "list_all2 R xs ys \<Longrightarrow> distinct xs \<Longrightarrow> \<exists>g. ys = map g xs \<and> (\<forall>x \<in> set xs. R x (g x))"
proof (induction rule: list_all2_induct)
  case Nil
  then show ?case by simp
next
  case (Cons x xs y ys)
  then obtain g where g: "ys = map g xs" "\<forall>x \<in> set xs. R x (g x)" by auto
  from Cons.prems have nx: "x \<notin> set xs" by simp
  have "y # ys = map (g(x := y)) (x # xs)" using g(1) nx by auto
  moreover have "\<forall>z \<in> set (x # xs). R z ((g(x := y)) z)" using g(2) Cons.hyps(1) nx by auto
  ultimately show ?case by (intro exI [of _ "g(x := y)"] conjI)
qed

lemma filter_eq_distinct: "distinct xs \<Longrightarrow> x \<in> set xs \<Longrightarrow> filter (\<lambda>y. x = y) xs = [x]"
  by (induction xs) (auto simp: filter_empty_conv)

lemma order_restored:
  assumes d: "distinct (map (\<lambda>r. r ''ID'') rs)"
  shows "list_all2 outputOf rs (finalRowsOf J b q rs)"
proof -
  let ?P = "reassembled J rs"
  let ?f = "orderKey rs"
  from d have drs: "distinct rs" by (simp add: distinct_map)
  have ms: "mset ?P = mset rs" by (rule reassembled_mset)
  then have dP: "distinct ?P" using drs by (metis mset_eq_imp_distinct_iff)
  have sP: "set ?P = set rs" using ms by (rule mset_eq_setD)
  obtain F where F: "list_all2 outputOf ?P F" "finalRowsOf J b q rs = sort_key ?f F"
    using finalRowsOf_sort by blast
  from list_all2_distinct_map [OF F(1) dP] obtain g
    where g: "F = map g ?P" "\<forall>x \<in> set ?P. outputOf x (g x)" by blast
  have key: "?f (g (rs ! i)) = enat i" if "i < length rs" for i
  proof -
    from that have "rs ! i \<in> set ?P" by (simp add: sP)
    with g(2) have "g (rs ! i) ''ID'' = (rs ! i) ''ID''" by (simp add: outputOf_ID)
    with d that show ?thesis by (rule orderKey_distinct)
  qed
  have inj: "?f (g x) = ?f (g y) \<longleftrightarrow> x = y" if "x \<in> set rs" "y \<in> set rs" for x y
  proof -
    from that obtain i j where "i < length rs" "x = rs ! i" "j < length rs" "y = rs ! j"
      by (auto simp: in_set_conv_nth)
    with key [of i] key [of j] have "?f (g x) = ?f (g y) \<Longrightarrow> x = y" by simp
    then show ?thesis by blast
  qed
  have "sort_key ?f (map g ?P) = map g rs"
  proof (rule properties_for_sort_key)
    show "mset (map g rs) = mset (map g ?P)" by (simp add: ms)
  next
    fix k assume "k \<in> set (map g rs)"
    then obtain x where x: "x \<in> set rs" "k = g x" by auto
    have 1: "filter (\<lambda>y. ?f (g x) = ?f (g y)) rs = filter (\<lambda>y. x = y) rs"
      by (rule filter_cong) (simp_all add: inj x(1))
    have 2: "filter (\<lambda>y. ?f (g x) = ?f (g y)) ?P = filter (\<lambda>y. x = y) ?P"
      by (rule filter_cong) (simp_all add: inj x(1) sP)
    have "filter (\<lambda>y. x = y) rs = [x]" "filter (\<lambda>y. x = y) ?P = [x]"
      using x(1) drs dP sP by (simp_all add: filter_eq_distinct)
    with 1 2 show "filter (\<lambda>y. ?f k = ?f y) (map g rs) = filter (\<lambda>y. ?f k = ?f y) (map g ?P)"
      by (simp add: filter_map o_def x(2))
  next
    have "map ?f (map g rs) = map enat [0..<length rs]"
      by (rule nth_equalityI) (simp_all add: key)
    moreover have "sorted (map enat [0..<length rs])"
      by (simp add: sorted_map sorted_wrt_iff_nth_less)
    ultimately show "sorted (map ?f (map g rs))" by simp
  qed
  then have "finalRowsOf J b q rs = map g rs" by (simp add: F(2) g(1))
  moreover have "list_all2 outputOf rs (map g rs)"
    unfolding list_all2_map2 using g(2) sP by (simp add: list_all2_same)
  ultimately show ?thesis by simp
qed

section \<open>Output columns and row order\<close>

lemma finalRowsOf_rows:
  assumes "r' \<in> set (finalRowsOf J b q rs)"
  shows "\<exists>r \<in> set rs. outputOf r r'"
proof -
  obtain F where F: "list_all2 outputOf (reassembled J rs) F" "finalRowsOf J b q rs = sort_key (orderKey rs) F"
    using finalRowsOf_sort by blast
  from assms F(2) have "r' \<in> set F" by simp
  then obtain i where i: "i < length F" "r' = F ! i" by (auto simp: in_set_conv_nth)
  with F(1) have "outputOf (reassembled J rs ! i) r'" by (simp add: list_all2_nthD2)
  moreover from i(1) F(1) have "reassembled J rs ! i \<in> set (reassembled J rs)"
    by (simp add: list_all2_lengthD)
  moreover have "set (reassembled J rs) = set rs" using reassembled_mset by (rule mset_eq_setD)
  ultimately show ?thesis by blast
qed

lemma handleDereplication_rows:
  "handleDereplication J (Some T) = Inr T' \<Longrightarrow>
     headers T' = headers T
     \<and> rows T' = finalRowsOf J (bioColsOf J (headers T)) (qcColsOf J (headers T)) (rows T)"
  by (auto simp: handleDereplication_def Let_def split: if_splits)

text \<open>
  Claim C2.  When the dereplication succeeds, the header list of its table is the input's
  header list; every row carries one more field, the status column (shown by the table
  view after the headers), which is Retained or Removed, and carries neither the QC RSD
  nor the average intensity; the download of the result has
  the same headers, its rows carry no status (nor a metric), and what is exported is the
  header list and each of these rows projected on it.
\<close>

theorem dereplication_output_columns:
  assumes "handleDereplication J (Some T) = Inr T'"
  shows "headers T' = headers T
     \<and> (\<forall>r \<in> set (rows T').
           (r ''_derep_status'' = Some (Str Retained) \<or> r ''_derep_status'' = Some (Str Removed))
           \<and> r ''_qc_rsd'' = None \<and> r ''_avg_intensity'' = None)
     \<and> headers (dataToDownload T') = headers T
     \<and> (\<forall>r \<in> set (rows (dataToDownload T')).
           r ''_derep_status'' = None \<and> r ''_qc_rsd'' = None \<and> r ''_avg_intensity'' = None)
     \<and> handleDownloadDereplicationResult (Some T')
         = Some (headers T, map (\<lambda>row. map (\<lambda>header. row header) (headers T)) (rows (dataToDownload T')))"
proof -
  note h = handleDereplication_rows [OF assms]
  have r: "(r ''_derep_status'' = Some (Str Retained) \<or> r ''_derep_status'' = Some (Str Removed))
           \<and> r ''_qc_rsd'' = None \<and> r ''_avg_intensity'' = None" if "r \<in> set (rows T')" for r
  proof -
    from that h obtain r0 where "outputOf r0 r" using finalRowsOf_rows by metis
    then show ?thesis by (auto simp: outputOf_def deleteMetrics_def)
  qed
  have d: "r ''_derep_status'' = None \<and> r ''_qc_rsd'' = None \<and> r ''_avg_intensity'' = None"
    if "r \<in> set (rows (dataToDownload T'))" for r
  proof -
    from that obtain r1 where "r1 \<in> set (rows T')" "r = r1(''_derep_status'' := None)"
      by (auto simp: dataToDownload_def)
    with r [of r1] show ?thesis by simp
  qed
  have e: "handleDownloadDereplicationResult (Some T')
         = Some (headers T, map (\<lambda>row. map (\<lambda>header. row header) (headers T)) (rows (dataToDownload T')))"
    by (simp add: handleDownloadDereplicationResult_def exportFile_def dataToDownload_def h)
  have hd: "headers (dataToDownload T') = headers T" by (simp add: dataToDownload_def h)
  from h r d e hd show ?thesis by blast
qed

lemma mergeRowsID_frame:
  "length (mergeRowsID J cols dataRows mergedRows) = length mergedRows
   \<and> (\<forall>i<length mergedRows. \<forall>col. col \<notin> set cols \<longrightarrow>
         (mergeRowsID J cols dataRows mergedRows ! i) col = (mergedRows ! i) col)"
  by (simp add: mergeRowsID_def Let_def map_add_def newRowData_apply split: option.split)

lemma mergeRowsMass_frame:
  "length (mergeRowsMass J k cols dataRows netRows mergedRows) = length mergedRows
   \<and> (\<forall>i<length mergedRows. \<forall>col. col \<notin> set cols \<longrightarrow>
         (mergeRowsMass J k cols dataRows netRows mergedRows ! i) col = (mergedRows ! i) col)"
  by (simp add: mergeRowsMass_def Let_def map_add_def newRowData_apply split: option.split)

lemma handleFileProcess_frame:
  assumes "handleFileProcess J stepConfig data (Some mergedData) (Some netTable) = Inr (T1, unmatched)"
    and "matchColumn stepConfig = ''ID''
         \<or> matchColumn stepConfig = ''ionMass'' \<and> (\<exists>k. matchColumnBase stepConfig = Some k \<and> k \<noteq> [])"
  shows "length (rows T1) = length (rows mergedData)
       \<and> (\<forall>i<length (rows mergedData). \<forall>col. col \<notin> set (appendColumns stepConfig) \<longrightarrow>
             (rows T1 ! i) col = (rows mergedData ! i) col)"
proof -
  from assms consider
      "rows T1 = mergeRowsID J (appendColumns stepConfig) (rows data) (rows mergedData)"
    | k where "rows T1 = mergeRowsMass J k (appendColumns stepConfig) (rows data) (rows netTable) (rows mergedData)"
    by (auto simp: handleFileProcess_def Let_def split: if_splits)
  then show ?thesis
  proof cases
    case 1
    then show ?thesis using mergeRowsID_frame by simp
  next
    case 2
    then show ?thesis using mergeRowsMass_frame by simp
  qed
qed

lemma orderKey_last:
  assumes "i < length rs" and "r ''ID'' = (rs ! i) ''ID''"
    and "\<forall>j. i < j \<and> j < length rs \<longrightarrow> (rs ! j) ''ID'' \<noteq> (rs ! i) ''ID''"
  shows "orderKey rs r = enat i"
  using rowOrderMap_last [OF assms(1,3)] by (simp add: orderKey_def assms(2))

lemma orderKey_not_found: "r ''ID'' \<notin> (\<lambda>x. x ''ID'') ` set rs \<Longrightarrow> orderKey rs r = \<infinity>"
  using rowOrderMap_None [of rs "r ''ID''"] by (simp add: orderKey_def)

text \<open>
  The row order after each transform.  A merge returns one row for each base row, in order,
  changed in the append columns only; the contaminant filter returns the input rows that it keeps, in
  order.  The dereplication returns the reassembled rows (groups in order of first
  occurrence, then the rows without annotation) sorted stably by the key of their
  identifier: the index of the last input row with that identifier, and infinity for an
  identifier that no input row has.  When the identifiers of the input rows are pairwise
  distinct, the result is the input, row by row, with the status added and the metrics
  deleted: the original order.
\<close>

theorem row_order:
  "(handleFileProcess J stepConfig data (Some mergedData) (Some netTable) = Inr (T1, unmatched)
      \<and> (matchColumn stepConfig = ''ID''
          \<or> matchColumn stepConfig = ''ionMass'' \<and> (\<exists>k. matchColumnBase stepConfig = Some k \<and> k \<noteq> []))
     \<longrightarrow> length (rows T1) = length (rows mergedData)
         \<and> (\<forall>i<length (rows mergedData). \<forall>col. col \<notin> set (appendColumns stepConfig) \<longrightarrow>
               (rows T1 ! i) col = (rows mergedData ! i) col))
   \<and> (handleApplyFilter J (Some T) (Some S) = Inr T2
     \<longrightarrow> rows T2 = filter (\<lambda>r. r \<in> set (rows T2)) (rows T))
   \<and> (handleDereplication J (Some D) = Inr T3
     \<longrightarrow> (\<exists>F. list_all2 outputOf (reassembled J (rows D)) F \<and> rows T3 = sort_key (orderKey (rows D)) F)
         \<and> sorted (map (orderKey (rows D)) (rows T3))
         \<and> (\<forall>i<length (rows D). \<forall>r.
               r ''ID'' = (rows D ! i) ''ID''
               \<and> (\<forall>j. i < j \<and> j < length (rows D) \<longrightarrow> (rows D ! j) ''ID'' \<noteq> (rows D ! i) ''ID'')
               \<longrightarrow> orderKey (rows D) r = enat i)
         \<and> (\<forall>r. r ''ID'' \<notin> (\<lambda>x. x ''ID'') ` set (rows D) \<longrightarrow> orderKey (rows D) r = \<infinity>)
         \<and> (distinct (map (\<lambda>r. r ''ID'') (rows D)) \<longrightarrow> list_all2 outputOf (rows D) (rows T3)))"
proof (intro conjI impI)
  assume "handleFileProcess J stepConfig data (Some mergedData) (Some netTable) = Inr (T1, unmatched)
      \<and> (matchColumn stepConfig = ''ID''
          \<or> matchColumn stepConfig = ''ionMass'' \<and> (\<exists>k. matchColumnBase stepConfig = Some k \<and> k \<noteq> []))"
  then have f: "length (rows T1) = length (rows mergedData)
       \<and> (\<forall>i<length (rows mergedData). \<forall>col. col \<notin> set (appendColumns stepConfig) \<longrightarrow>
             (rows T1 ! i) col = (rows mergedData ! i) col)"
    using handleFileProcess_frame by blast
  from f show "length (rows T1) = length (rows mergedData)" ..
  from f show "\<forall>i<length (rows mergedData). \<forall>col. col \<notin> set (appendColumns stepConfig) \<longrightarrow>
             (rows T1 ! i) col = (rows mergedData ! i) col" ..
next
  assume "handleApplyFilter J (Some T) (Some S) = Inr T2"
  then have "rows T2 = filter (keepRow J S) (rows T)"
    by (auto simp: handleApplyFilter_def split: if_splits)
  then show "rows T2 = filter (\<lambda>r. r \<in> set (rows T2)) (rows T)"
    by (auto intro: filter_cong)
next
  assume a: "handleDereplication J (Some D) = Inr T3"
  note h = handleDereplication_rows [OF a]
  show "\<exists>F. list_all2 outputOf (reassembled J (rows D)) F \<and> rows T3 = sort_key (orderKey (rows D)) F"
    using finalRowsOf_sort h by metis
  show "sorted (map (orderKey (rows D)) (rows T3))"
    using finalRowsOf_sort [of J "rows D"] h by (metis sorted_sort_key)
  show "\<forall>i<length (rows D). \<forall>r.
               r ''ID'' = (rows D ! i) ''ID''
               \<and> (\<forall>j. i < j \<and> j < length (rows D) \<longrightarrow> (rows D ! j) ''ID'' \<noteq> (rows D ! i) ''ID'')
               \<longrightarrow> orderKey (rows D) r = enat i"
    using orderKey_last by blast
  show "\<forall>r. r ''ID'' \<notin> (\<lambda>x. x ''ID'') ` set (rows D) \<longrightarrow> orderKey (rows D) r = \<infinity>"
    using orderKey_not_found by blast
  assume "distinct (map (\<lambda>r. r ''ID'') (rows D))"
  then show "list_all2 outputOf (rows D) (rows T3)"
    using order_restored h by simp
qed

section \<open>Output columns and row order on concrete tables\<close>

theorem dereplication_output_columns_witness:
  "handleDereplication J0 (Some scenarioC)
     = Inr (scenarioC\<lparr>rows := finalRowsOf J0 [''CON_1''] [''QC-1'', ''QC-2'', ''QC-3''] (rows scenarioC)\<rparr>)
   \<and> headers (scenarioC\<lparr>rows := finalRowsOf J0 [''CON_1''] [''QC-1'', ''QC-2'', ''QC-3''] (rows scenarioC)\<rparr>)
       = scenarioHeaders
   \<and> handleDownloadDereplicationResult
        (Some (scenarioC\<lparr>rows := finalRowsOf J0 [''CON_1''] [''QC-1'', ''QC-2'', ''QC-3''] (rows scenarioC)\<rparr>))
       = Some (scenarioHeaders,
               [[Some (Num 2), Some (Str ''X''), Some (Num 80), Some (Num 94), Some (Num 100), Some (Num 106)]])"
proof -
  let ?T' = "scenarioC\<lparr>rows := finalRowsOf J0 [''CON_1''] [''QC-1'', ''QC-2'', ''QC-3''] (rows scenarioC)\<rparr>"
  have h: "handleDereplication J0 (Some scenarioC) = Inr ?T'" by (rule scenarioC_handle_J0)
  note t = dereplication_output_columns [OF h]
  have hs: "headers scenarioC = scenarioHeaders" by (simp add: scenarioC_def)
  from t have 1: "headers ?T' = scenarioHeaders" by (simp add: hs)
  have d: "map (\<lambda>row. map (\<lambda>header. row header) scenarioHeaders) (rows (dataToDownload ?T'))
        = [[Some (Num 2), Some (Str ''X''), Some (Num 80), Some (Num 94), Some (Num 100), Some (Num 106)]]"
    by (simp add: dataToDownload_def scenarioC_finalRows_J0 deleteMetrics_def mkRow_simps
        Retained_def Removed_def scenarioHeaders_def)
  from t have "handleDownloadDereplicationResult (Some ?T')
         = Some (headers scenarioC, map (\<lambda>row. map (\<lambda>header. row header) (headers scenarioC)) (rows (dataToDownload ?T')))"
    by blast
  then have 2: "handleDownloadDereplicationResult (Some ?T')
       = Some (scenarioHeaders,
               [[Some (Num 2), Some (Str ''X''), Some (Num 80), Some (Num 94), Some (Num 100), Some (Num 106)]])"
    unfolding hs d .
  from h 1 2 show ?thesis by (intro conjI)
qed

lemma dup_grouping:
  "grouping J0 (rows dupTable) =
     ([(''A'', [(mkRow 1 50 95 100 105)(''Final_Annotation'' \<mapsto> Str ''A'')]),
       (''B'', [(mkRow 2 80 94 100 106)(''Final_Annotation'' \<mapsto> Str ''B'')])],
      [(mkRow 1 10 60 100 140)(''Final_Annotation'' \<mapsto> Null)])"
  by (simp add: grouping_def groupStep_def dupTable_def J0_def trimAscii_def isSpace_def Let_def mkRow_simps)

lemma dup_rowOrderMap:
  "rowOrderMap (rows dupTable) =
     (\<lambda>k. if k = Some (Num 1) then Some 2 else if k = Some (Num 2) then Some 1 else None)"
  by (rule ext) (simp add: rowOrderMap_def newMap_def dupTable_def mkRow_simps upt_rec)

lemma dup_orderKey:
  "orderKey (rows dupTable) (deleteMetrics (((mkRow 1 b q1 q2 q3)(''Final_Annotation'' \<mapsto> a))(''_derep_status'' \<mapsto> s))) = enat 2"
  "orderKey (rows dupTable) (deleteMetrics (((mkRow 2 b q1 q2 q3)(''Final_Annotation'' \<mapsto> a))(''_derep_status'' \<mapsto> s))) = enat 1"
  by (simp_all add: orderKey_def dup_rowOrderMap deleteMetrics_def mkRow_simps)

lemma dup_finalRows:
  "finalRowsOf J0 b q (rows dupTable) =
     [deleteMetrics (((mkRow 2 80 94 100 106)(''Final_Annotation'' \<mapsto> Str ''B''))(''_derep_status'' \<mapsto> Str Retained)),
      deleteMetrics (((mkRow 1 50 95 100 105)(''Final_Annotation'' \<mapsto> Str ''A''))(''_derep_status'' \<mapsto> Str Retained)),
      deleteMetrics (((mkRow 1 10 60 100 140)(''Final_Annotation'' \<mapsto> Null))(''_derep_status'' \<mapsto> Str Retained))]"
  unfolding finalRowsOf_def dup_grouping
  by (simp add: processGroup_def dup_orderKey)

text \<open>
  Claim C8.  The merges and the filter keep the row order (theorem \<open>row_order\<close>), and so
  does the dereplication when no identifier is repeated.  On a table in which the
  identifier of the first row occurs again in the third, the dereplication does not
  restore the original order: the rows annotated A and B come out as B, A.
\<close>

theorem duplicate_identifier_order_not_restored:
  "columnOf ''Final_Annotation'' (rows dupTable) = [Some (Str ''A''), Some (Str ''B''), Some Null]
   \<and> columnOf ''Final_Annotation'' (rowsOfResult (handleDereplication J0 (Some dupTable)))
       = [Some (Str ''B''), Some (Str ''A''), Some Null]
   \<and> columnOf ''Final_Annotation'' (rowsOfResult (handleDereplication J0 (Some dupTable)))
       \<noteq> columnOf ''Final_Annotation'' (rows dupTable)"
proof -
  have "headers dupTable = scenarioHeaders" by (simp add: dupTable_def)
  then have "handleDereplication J0 (Some dupTable)
     = Inr (dupTable\<lparr>rows := finalRowsOf J0 [''CON_1''] [''QC-1'', ''QC-2'', ''QC-3''] (rows dupTable)\<rparr>)"
    by (simp add: handleDereplication_def scenario_bioCols_J0 scenario_qcCols_J0 Let_def)
       (simp add: scenarioHeaders_def)
  then have "columnOf ''Final_Annotation'' (rowsOfResult (handleDereplication J0 (Some dupTable)))
       = [Some (Str ''B''), Some (Str ''A''), Some Null]"
    by (simp add: rowsOfResult_def columnOf_def dup_finalRows deleteMetrics_def)
  moreover have "columnOf ''Final_Annotation'' (rows dupTable) = [Some (Str ''A''), Some (Str ''B''), Some Null]"
    by (simp add: columnOf_def dupTable_def)
  ultimately show ?thesis by simp
qed

theorem row_order_witness:
  "handleFileProcess J0 idStep idIncoming (Some idBase) (Some idBase)
     = Inr (\<lparr>headers = [''ID'', ''MZ'', ''Compound_Name'', ''Adduct''],
             rows = mergeRowsID J0 [''Compound_Name'', ''Adduct''] (rows idIncoming) (rows idBase)\<rparr>,
            map (\<lambda>id. Some (Str id)) (foundUnmatchedID J0 (rows idIncoming) (rows idBase)))
   \<and> matchColumn idStep = ''ID''
   \<and> length (mergeRowsID J0 [''Compound_Name'', ''Adduct''] (rows idIncoming) (rows idBase)) = 3
   \<and> handleApplyFilter J0 (Some filterInput) (Some [''caffeine'']) = Inr filterOutput
   \<and> rows filterOutput = filter (\<lambda>r. r \<in> set (rows filterOutput)) (rows filterInput)
   \<and> handleDereplication J0 (Some scenarioC)
       = Inr (scenarioC\<lparr>rows := finalRowsOf J0 [''CON_1''] [''QC-1'', ''QC-2'', ''QC-3''] (rows scenarioC)\<rparr>)
   \<and> distinct (map (\<lambda>r. r ''ID'') (rows scenarioC))
   \<and> list_all2 outputOf (rows scenarioC)
        (finalRowsOf J0 [''CON_1''] [''QC-1'', ''QC-2'', ''QC-3''] (rows scenarioC))"
proof -
  let ?T1 = "\<lparr>headers = [''ID'', ''MZ'', ''Compound_Name'', ''Adduct''],
             rows = mergeRowsID J0 [''Compound_Name'', ''Adduct''] (rows idIncoming) (rows idBase)\<rparr>"
  let ?T3 = "scenarioC\<lparr>rows := finalRowsOf J0 [''CON_1''] [''QC-1'', ''QC-2'', ''QC-3''] (rows scenarioC)\<rparr>"
  have m: "matchColumn idStep = ''ID''" by (simp add: idStep_def)
  note f = filterInput_result
  have d: "distinct (map (\<lambda>r. r ''ID'') (rows scenarioC))"
    by (simp add: scenarioC_def mkRow_simps)
  note t = row_order [of J0 idStep idIncoming idBase idBase ?T1
      "map (\<lambda>id. Some (Str id)) (foundUnmatchedID J0 (rows idIncoming) (rows idBase))"
      filterInput "[''caffeine'']" filterOutput scenarioC ?T3]
  from t idStep_result m have 1: "length (rows ?T1) = length (rows idBase)" by blast
  from t f have 2: "rows filterOutput = filter (\<lambda>r. r \<in> set (rows filterOutput)) (rows filterInput)"
    by blast
  from t scenarioC_handle_J0 d have 3: "list_all2 outputOf (rows scenarioC) (rows ?T3)" by blast
  have l: "length (rows idBase) = 3" by (simp add: idBase_def)
  from 1 l have a1: "length (mergeRowsID J0 [''Compound_Name'', ''Adduct''] (rows idIncoming) (rows idBase)) = 3"
    by simp
  from 3 have a3: "list_all2 outputOf (rows scenarioC)
        (finalRowsOf J0 [''CON_1''] [''QC-1'', ''QC-2'', ''QC-3''] (rows scenarioC))" by simp
  from idStep_result m a1 f 2 scenarioC_handle_J0 d a3 show ?thesis by (intro conjI)
qed

end
